theory Spec2Isabelle
  imports Main
begin


section \<open>Text: characters, whitespace, trimming\<close>

text \<open>
  Python \<open>str\<close> values are modelled as \<open>string\<close>: a list of 8-bit characters, read as
  the code points below 256. The character classes below are the ones Python's \<open>re\<close>
  module and \<open>str.strip\<close> use on that range.
\<close>

definition code :: "char \<Rightarrow> nat" where
  "code c = of_char c"

definition is_space :: "char \<Rightarrow> bool" where
  \<comment> \<open>\<open>\s\<close> and the characters removed by \<open>str.strip()\<close>\<close>
  "is_space c = (code c \<in> set [9, 10, 11, 12, 13, 28, 29, 30, 31, 32, 133, 160])"

definition is_digit :: "char \<Rightarrow> bool" where
  \<comment> \<open>\<open>\d\<close>\<close>
  "is_digit c = (48 \<le> code c \<and> code c \<le> 57)"

definition is_upper :: "char \<Rightarrow> bool" where
  "is_upper c = (65 \<le> code c \<and> code c \<le> 90)"

definition is_lower :: "char \<Rightarrow> bool" where
  "is_lower c = (97 \<le> code c \<and> code c \<le> 122)"

definition is_word :: "char \<Rightarrow> bool" where
  \<comment> \<open>\<open>\w\<close>: alphanumeric characters and the underscore\<close>
  "is_word c =
     (is_digit c \<or> is_upper c \<or> is_lower c \<or> code c = 95
      \<or> code c \<in> set [170, 178, 179, 181, 185, 186, 188, 189, 190]
      \<or> (192 \<le> code c \<and> code c \<le> 214)
      \<or> (216 \<le> code c \<and> code c \<le> 246)
      \<or> 248 \<le> code c)"

definition is_quote :: "char \<Rightarrow> bool" where
  \<comment> \<open>the class \<open>["']\<close>\<close>
  "is_quote c = (c = CHR 0x22 \<or> c = CHR 0x27)"

definition lower :: "char \<Rightarrow> char" where
  \<comment> \<open>case folding used by \<open>re.IGNORECASE\<close> on the letters of the patterns below\<close>
  "lower c =
     (case map_of (zip ''ABCDEFGHIJKLMNOPQRSTUVWXYZ'' ''abcdefghijklmnopqrstuvwxyz'') c of
        None \<Rightarrow> c
      | Some l \<Rightarrow> l)"

definition strip :: "string \<Rightarrow> string" where
  \<comment> \<open>\<open>str.strip()\<close>\<close>
  "strip s = rev (dropWhile is_space (rev (dropWhile is_space s)))"

fun strip_prefix :: "string \<Rightarrow> string \<Rightarrow> string option" where
  \<comment> \<open>match a literal at the start of the text; the rest of the text on success\<close>
  "strip_prefix [] s = Some s"
| "strip_prefix (p # ps) [] = None"
| "strip_prefix (p # ps) (c # cs) = (if p = c then strip_prefix ps cs else None)"

fun strip_prefix_ci :: "string \<Rightarrow> string \<Rightarrow> string option" where
  \<comment> \<open>the same under \<open>re.IGNORECASE\<close>; the literal is given in lower case\<close>
  "strip_prefix_ci [] s = Some s"
| "strip_prefix_ci (p # ps) [] = None"
| "strip_prefix_ci (p # ps) (c # cs) = (if p = lower c then strip_prefix_ci ps cs else None)"

section \<open>Regular-expression search\<close>

text \<open>
  \<open>re.search\<close> tries the pattern at every position from left to right, the end of the
  text included, and returns the first match. A pattern is given as a matcher that sees
  the character before the position (for \<open>\b\<close>) and the text from the position on.
\<close>

fun search_from :: "(char option \<Rightarrow> string \<Rightarrow> 'a option) \<Rightarrow> char option \<Rightarrow> string \<Rightarrow> 'a option" where
  "search_from m prev [] = m prev []"
| "search_from m prev (c # cs) =
     (case m prev (c # cs) of
        Some x \<Rightarrow> Some x
      | None \<Rightarrow> search_from m (Some c) cs)"

definition re_search :: "(char option \<Rightarrow> string \<Rightarrow> 'a option) \<Rightarrow> string \<Rightarrow> 'a option" where
  "re_search m text = search_from m None text"

definition word_boundary :: "char option \<Rightarrow> string \<Rightarrow> bool" where
  \<comment> \<open>\<open>\b\<close>: exactly one of the two neighbours is a word character\<close>
  "word_boundary prev s =
     ((case prev of None \<Rightarrow> False | Some c \<Rightarrow> is_word c)
      \<noteq> (case s of [] \<Rightarrow> False | c # _ \<Rightarrow> is_word c))"

section \<open>VersionResolver\<close>

text \<open>
  The pattern \<open>version\s*=\s*["']([^"']+)["']\<close> at one position; the result is group 1.
  Each repetition is followed by a character outside its class, so the greedy match is
  the only one: \<open>\s*\<close> must take the whole run of whitespace, since the next character has to
  be \<open>=\<close> (or a quote), and \<open>[^"']+\<close> must take the whole run up to the next quote.
\<close>

definition match_version :: "string \<Rightarrow> string option" where
  "match_version s =
     (case strip_prefix ''version'' s of
        None \<Rightarrow> None
      | Some r1 \<Rightarrow>
          (case dropWhile is_space r1 of
             [] \<Rightarrow> None
           | e # r2 \<Rightarrow>
               if e \<noteq> CHR ''='' then None
               else (case dropWhile is_space r2 of
                       [] \<Rightarrow> None
                     | q # r3 \<Rightarrow>
                         if \<not> is_quote q then None
                         else (let x = takeWhile (\<lambda>c. \<not> is_quote c) r3;
                                   r4 = dropWhile (\<lambda>c. \<not> is_quote c) r3
                               in if x = [] \<or> r4 = [] then None else Some x))))"

definition release_version_pattern :: "char option \<Rightarrow> string \<Rightarrow> string option" where
  \<comment> \<open>release.py: \<open>r'version\s*=\s*["\']([^"\']+)["\']'\<close>\<close>
  "release_version_pattern prev s = match_version s"

definition deb_version_pattern :: "char option \<Rightarrow> string \<Rightarrow> string option" where
  \<comment> \<open>deb\_publish.py: \<open>r"\bversion\s*=\s*['\"]([^'\"]+)['\"]"\<close>\<close>
  "deb_version_pattern prev s = (if word_boundary prev s then match_version s else None)"

definition read_version_from_setup :: "string option \<Rightarrow> string option" where
  \<comment> \<open>release.py; the argument is the text of setup.py, \<open>None\<close> when the file does not exist\<close>
  "read_version_from_setup setup_py =
     (case setup_py of
        None \<Rightarrow> None
      | Some text \<Rightarrow>
          (case re_search release_version_pattern text of
             None \<Rightarrow> None
           | Some g \<Rightarrow> Some (strip g)))"

definition read_project_version :: "string option \<Rightarrow> string option" where
  \<comment> \<open>deb\_publish.py; the same with the pattern anchored at a word boundary\<close>
  "read_project_version setup_py =
     (case setup_py of
        None \<Rightarrow> None
      | Some text \<Rightarrow>
          (case re_search deb_version_pattern text of
             None \<Rightarrow> None
           | Some g \<Rightarrow> Some (strip g)))"

text \<open>
  What the resolvers take as an assignment: the keyword, optional whitespace around the
  equals sign, a quote character of either kind, a non-empty value without any quote
  character, and again a quote character of either kind (not necessarily the one that
  opened). \<open>assignment_here wb pre rest X\<close> says that such an assignment with value \<open>X\<close>
  starts right after \<open>pre\<close>; with \<open>wb\<close> the keyword must start at a word boundary, that
  is, not continue a longer word. \<open>first_assignment\<close> is the leftmost one in the text.
\<close>

definition version_assignment :: "string \<Rightarrow> string \<Rightarrow> bool" where
  "version_assignment s X \<longleftrightarrow>
     (\<exists>ws1 ws2 q q' post.
        s = ''version'' @ ws1 @ ''='' @ ws2 @ [q] @ X @ [q'] @ post
        \<and> (\<forall>c\<in>set ws1. is_space c) \<and> (\<forall>c\<in>set ws2. is_space c)
        \<and> is_quote q \<and> is_quote q' \<and> X \<noteq> [] \<and> (\<forall>c\<in>set X. \<not> is_quote c))"

definition assignment_here :: "bool \<Rightarrow> string \<Rightarrow> string \<Rightarrow> string \<Rightarrow> bool" where
  "assignment_here wb pre rest X \<longleftrightarrow>
     version_assignment rest X \<and> (wb \<longrightarrow> pre = [] \<or> \<not> is_word (last pre))"

definition first_assignment :: "bool \<Rightarrow> string \<Rightarrow> string \<Rightarrow> bool" where
  "first_assignment wb text X \<longleftrightarrow>
     (\<exists>pre rest. text = pre @ rest \<and> assignment_here wb pre rest X
        \<and> (\<forall>pre' rest' Y. text = pre' @ rest' \<and> length pre' < length pre
              \<longrightarrow> \<not> assignment_here wb pre' rest' Y))"

definition has_assignment :: "bool \<Rightarrow> string \<Rightarrow> bool" where
  "has_assignment wb text \<longleftrightarrow>
     (\<exists>pre rest X. text = pre @ rest \<and> assignment_here wb pre rest X)"

definition last_opt :: "char option \<Rightarrow> string \<Rightarrow> char option" where
  \<comment> \<open>the character before a position: the last one of the text before it, if any\<close>
  "last_opt prev pre = (if pre = [] then prev else Some (last pre))"

section \<open>Subprocesses and errors\<close>

text \<open>
  What \<open>subprocess.run\<close> can give back: the program could not be started (Python raises
  \<open>FileNotFoundError\<close>), or it ran and left an exit code, its standard output and its
  standard error. A function of the scripts either returns a value, leaves the process with
  \<open>sys.exit\<close>, or raises.
\<close>

datatype proc = NotFound | Completed int string string

datatype error = FileNotFoundError | CalledProcessError int | SameFileError | EOFError

datatype 'a res = Ret 'a | Exit int | Raise error

definition nl :: char where
  "nl = CHR 0x0A"

definition check_output :: "proc \<Rightarrow> error + string" where
  \<comment> \<open>\<open>subprocess.check\_output(..., stderr=subprocess.STDOUT)\<close>: the merged output, or an exception\<close>
  "check_output p =
     (case p of
        NotFound \<Rightarrow> Inl FileNotFoundError
      | Completed rc out err \<Rightarrow> if rc \<noteq> 0 then Inl (CalledProcessError rc) else Inr out)"

section \<open>PackagingSkeletonGenerator (deb\_publish.py)\<close>

text \<open>
  The pattern \<open>debhelper\s+version\s+(\d+)\<close> under \<open>re.IGNORECASE\<close> at one position. The
  runs of whitespace are followed by a letter and by a digit, so they are matched whole;
  \<open>\d+\<close> is last and greedy, so group 1 is the whole run of digits.
\<close>

definition match_debhelper :: "string \<Rightarrow> string option" where
  "match_debhelper s =
     (case strip_prefix_ci ''debhelper'' s of
        None \<Rightarrow> None
      | Some r1 \<Rightarrow>
          if takeWhile is_space r1 = [] then None
          else (case strip_prefix_ci ''version'' (dropWhile is_space r1) of
                  None \<Rightarrow> None
                | Some r2 \<Rightarrow>
                    if takeWhile is_space r2 = [] then None
                    else (let d = takeWhile is_digit (dropWhile is_space r2)
                          in if d = [] then None else Some d)))"

definition debhelper_pattern :: "char option \<Rightarrow> string \<Rightarrow> string option" where
  "debhelper_pattern prev s = match_debhelper s"

definition int_of_digits :: "string \<Rightarrow> int" where
  \<comment> \<open>\<open>int(...)\<close> on a run of decimal digits\<close>
  "int_of_digits ds = foldl (\<lambda>n c. 10 * n + (int (code c) - 48)) 0 ds"

definition debhelper_compat_level :: "bool \<Rightarrow> proc \<Rightarrow> int" where
  \<comment> \<open>\<open>_debhelper_compat_level\<close>; \<open>dh_exists\<close> is \<open>command_exists("dh")\<close>, \<open>dh_version\<close> is what
      running \<open>dh --version\<close> gives\<close>
  "debhelper_compat_level dh_exists dh_version =
     (if \<not> dh_exists then 12
      else (case check_output dh_version of
              Inl e \<Rightarrow> 12
            | Inr out \<Rightarrow>
                (case re_search debhelper_pattern out of
                   None \<Rightarrow> 12
                 | Some g \<Rightarrow> max 12 (int_of_digits g))))"

definition digit_char :: "nat \<Rightarrow> char" where
  "digit_char d = ''0123456789'' ! (d mod 10)"

fun str_nat :: "nat \<Rightarrow> string" where
  "str_nat n = (if n < 10 then [digit_char n] else str_nat (n div 10) @ [digit_char (n mod 10)])"

declare str_nat.simps [simp del]

definition str_int :: "int \<Rightarrow> string" where
  \<comment> \<open>\<open>str\<close> of an integer, as an f-string renders it\<close>
  "str_int i = (if i < 0 then CHR ''-'' # str_nat (nat (- i)) else str_nat (nat i))"

definition getenv :: "(string \<rightharpoonup> string) \<Rightarrow> string \<Rightarrow> string option" where
  \<comment> \<open>\<open>os.environ.get(k)\<close> as used on the left of \<open>or\<close>: an empty value counts as unset\<close>
  "getenv environ k = (case environ k of None \<Rightarrow> None | Some v \<Rightarrow> if v = [] then None else Some v)"

definition maintainer_identity :: "(string \<rightharpoonup> string) \<Rightarrow> string \<times> string" where
  "maintainer_identity environ =
     ((case getenv environ ''DEBFULLNAME'' of
         Some v \<Rightarrow> v
       | None \<Rightarrow> (case getenv environ ''NAME'' of Some v \<Rightarrow> v | None \<Rightarrow> ''kport builder'')),
      (case getenv environ ''DEBEMAIL'' of
         Some v \<Rightarrow> v
       | None \<Rightarrow> (case getenv environ ''EMAIL'' of Some v \<Rightarrow> v | None \<Rightarrow> ''builder@localhost'')))"

definition text_lines :: "string list \<Rightarrow> string" where
  \<comment> \<open>the lines of a triple-quoted literal, each closed by a newline\<close>
  "text_lines ls = concat (map (\<lambda>l. l @ [nl]) ls)"

definition control_template :: "string \<Rightarrow> string \<Rightarrow> int \<Rightarrow> string" where
  \<comment> \<open>the f-string of the control file before \<open>textwrap.dedent\<close>; the third argument is the
      interpolated \<open>min(compat, 12)\<close>\<close>
  "control_template maint_name maint_email floor =
     text_lines
       [''        Source: kport'',
        ''        Section: utils'',
        ''        Priority: optional'',
        ''        Maintainer: '' @ maint_name @ '' <'' @ maint_email @ ''>'',
        ''        Build-Depends: debhelper (>= '' @ str_int floor @ '')'',
        ''        Standards-Version: 4.5.0'',
        ''        Homepage: https://github.com/farman20ali/port-killer'',
        ''        Rules-Requires-Root: no'',
        '''',
        ''        Package: kport'',
        ''        Architecture: all'',
        ''        Depends: ${misc:Depends}, python3, python3-psutil'',
        ''        Description: Cross-platform port inspector and killer'',
        ''         kport helps you list, inspect, and kill processes using ports.'',
        ''         It can also show Docker port mappings when Docker is installed.'']
     @ ''        ''"

definition changelog_template :: "string \<Rightarrow> string \<Rightarrow> string \<Rightarrow> string \<Rightarrow> string" where
  "changelog_template deb_version maint_name maint_email now =
     text_lines
       [''        kport ('' @ deb_version @ '') unstable; urgency=medium'',
        '''',
        ''          * Auto-generated Debian packaging.'',
        '''',
        ''         -- '' @ maint_name @ '' <'' @ maint_email @ ''>  '' @ now]
     @ ''        ''"

definition rules_text :: string where
  "rules_text =
     text_lines
       [''#!/usr/bin/make -f'',
        '''',
        ''%:'',
        [CHR 0x09] @ ''dh $@'',
        '''',
        ''override_dh_update_autotools_config:'',
        [CHR 0x09] @ ''true'',
        '''',
        ''override_dh_autoreconf:'',
        [CHR 0x09] @ ''true'',
        '''',
        ''override_dh_auto_configure:'',
        [CHR 0x09] @ ''true'',
        '''',
        ''override_dh_auto_clean:'',
        [CHR 0x09] @ ''true'',
        '''',
        ''override_dh_auto_build:'',
        [CHR 0x09] @ ''true'',
        '''',
        ''override_dh_auto_test:'',
        [CHR 0x09] @ ''true'',
        '''',
        ''override_dh_auto_install:'',
        [CHR 0x09] @ ''install -D -m 0755 kport.py debian/kport/usr/bin/kport'']"

fun split_on :: "char \<Rightarrow> string \<Rightarrow> string list" where
  \<comment> \<open>\<open>str.split(sep)\<close> for a one-character separator\<close>
  "split_on d [] = [[]]"
| "split_on d (c # cs) =
     (if c = d then [] # split_on d cs
      else (case split_on d cs of
              [] \<Rightarrow> [[c]]
            | w # ws \<Rightarrow> (c # w) # ws))"

fun join_lines :: "string list \<Rightarrow> string" where
  \<comment> \<open>\<open>"\n".join(lines)\<close>\<close>
  "join_lines [] = []"
| "join_lines [l] = l"
| "join_lines (l # ls) = l @ [nl] @ join_lines ls"

text \<open>
  \<open>textwrap.dedent\<close> of the standard library. A line made only of spaces and tabs becomes
  empty (\<open>^[ \t]+$\<close> is replaced by nothing). The margin is the longest string of spaces
  and tabs that starts every line which has something else on it (\<open>(^[ \t]*)(?:[^ \t\n])\<close>);
  when it is not empty, it is removed from the start of every line that begins with it.
\<close>

definition is_indent :: "char \<Rightarrow> bool" where
  \<comment> \<open>the class \<open>[ \t]\<close>\<close>
  "is_indent c = (c = CHR 0x20 \<or> c = CHR 0x09)"

definition blank_out :: "string \<Rightarrow> string" where
  "blank_out l = (if l \<noteq> [] \<and> list_all is_indent l then [] else l)"

fun common_prefix :: "string \<Rightarrow> string \<Rightarrow> string" where
  "common_prefix (x # xs) (y # ys) = (if x = y then x # common_prefix xs ys else [])"
| "common_prefix xs ys = []"

definition remove_margin :: "string \<Rightarrow> string \<Rightarrow> string" where
  \<comment> \<open>\<open>re.sub(r'(?m)^' + margin, '', text)\<close> on one line\<close>
  "remove_margin margin l = (case strip_prefix margin l of None \<Rightarrow> l | Some r \<Rightarrow> r)"

definition dedent_lines :: "string list \<Rightarrow> string list" where
  "dedent_lines lines =
     (let ls = map blank_out lines;
          indents = [takeWhile is_indent l. l \<leftarrow> ls, dropWhile is_indent l \<noteq> []]
      in (case indents of
            [] \<Rightarrow> ls
          | i # rest \<Rightarrow>
              (let margin = foldl common_prefix i rest
               in if margin = [] then ls else map (remove_margin margin) ls)))"

definition dedent :: "string \<Rightarrow> string" where
  "dedent text = join_lines (dedent_lines (split_on nl text))"

text \<open>
  The system as the generator sees it: the text of setup.py, the environment variables,
  whether \<open>dh\<close> is on the path and what \<open>dh --version\<close> gives, and the current time already
  formatted.
\<close>

record gen_env =
  setup_py :: "string option"
  environ :: "string \<rightharpoonup> string"
  dh_exists :: bool
  dh_version :: proc
  rfc2822_now_utc :: string

record skeleton =
  control :: string
  rules :: string
  changelog :: string
  compat :: string
  source_format :: string

definition generate_debian_skeleton :: "gen_env \<Rightarrow> string \<times> skeleton" where
  \<comment> \<open>the returned Debian version and the files written under \<open>work_dir/debian\<close>\<close>
  "generate_debian_skeleton e =
     (let project_version = (case read_project_version (setup_py e) of
                               None \<Rightarrow> ''0.0.0''
                             | Some v \<Rightarrow> if v = [] then ''0.0.0'' else v);
          deb_version = project_version @ ''-1'';
          compat = debhelper_compat_level (dh_exists e) (dh_version e);
          (maint_name, maint_email) = maintainer_identity (environ e)
      in (deb_version,
          \<lparr> control = dedent (control_template maint_name maint_email (min compat 12)),
            rules = rules_text,
            changelog = dedent (changelog_template deb_version maint_name maint_email
                                  (rfc2822_now_utc e)),
            compat = str_int compat @ [nl],
            source_format = ''3.0 (native)'' @ [nl] \<rparr>))"

section \<open>BuildDependencyChecker (deb\_publish.py)\<close>

text \<open>
  The pattern \<open>Unmet build dependencies:\s*(.*)$\<close> under \<open>re.IGNORECASE | re.MULTILINE\<close> at
  one position. After the marker, \<open>\s*\<close> takes the whole run of whitespace (newlines are
  whitespace), \<open>(.*)\<close> takes everything up to the next newline or the end of the text, and
  \<open>$\<close> holds there, so the first attempt succeeds.
\<close>

definition match_unmet :: "string \<Rightarrow> string option" where
  "match_unmet s =
     (case strip_prefix_ci ''unmet build dependencies:'' s of
        None \<Rightarrow> None
      | Some r \<Rightarrow> Some (takeWhile (\<lambda>c. c \<noteq> nl) (dropWhile is_space r)))"

definition unmet_pattern :: "char option \<Rightarrow> string \<Rightarrow> string option" where
  "unmet_pattern prev s = match_unmet s"

definition is_pkg_char :: "char \<Rightarrow> bool" where
  \<comment> \<open>the class \<open>[a-z0-9+.-]\<close> under \<open>re.IGNORECASE\<close>\<close>
  "is_pkg_char c =
     (is_lower c \<or> is_upper c \<or> is_digit c \<or> c = CHR ''+'' \<or> c = CHR ''.'' \<or> c = CHR ''-'')"

definition match_pkg_name :: "string \<Rightarrow> string option" where
  \<comment> \<open>\<open>re.match(r"^([a-z0-9+.-]+)", p, re.IGNORECASE)\<close>, group 1\<close>
  "match_pkg_name p = (let n = takeWhile is_pkg_char p in if n = [] then None else Some n)"

definition parse_unmet_build_deps :: "string \<Rightarrow> string list" where
  "parse_unmet_build_deps output =
     (case re_search unmet_pattern output of
        None \<Rightarrow> []
      | Some deps \<Rightarrow>
          (let parts = [strip p. p \<leftarrow> split_on CHR '','' deps, strip p \<noteq> []]
           in concat (map (\<lambda>p. case match_pkg_name p of None \<Rightarrow> [] | Some n \<Rightarrow> [n]) parts)))"


text \<open>
  What the specification calls the helper's reported version: the words \<open>debhelper\<close> and
  \<open>version\<close> in any letter case, each followed by whitespace, then the leading integer, a
  maximal run of decimal digits. \<open>first_match\<close> picks the leftmost place where a pattern
  holds, \<open>some_match\<close> says there is one.
\<close>

definition first_match :: "(string \<Rightarrow> 'a \<Rightarrow> bool) \<Rightarrow> string \<Rightarrow> 'a \<Rightarrow> bool" where
  "first_match H text x \<longleftrightarrow>
     (\<exists>pre rest. text = pre @ rest \<and> H rest x
        \<and> (\<forall>pre' rest' y. text = pre' @ rest' \<and> length pre' < length pre \<longrightarrow> \<not> H rest' y))"

definition some_match :: "(string \<Rightarrow> 'a \<Rightarrow> bool) \<Rightarrow> string \<Rightarrow> bool" where
  "some_match H text \<longleftrightarrow> (\<exists>pre rest x. text = pre @ rest \<and> H rest x)"

definition debhelper_version_here :: "string \<Rightarrow> string \<Rightarrow> bool" where
  "debhelper_version_here s d \<longleftrightarrow>
     (\<exists>k1 ws1 k2 ws2 post.
        s = k1 @ ws1 @ k2 @ ws2 @ d @ post
        \<and> map lower k1 = ''debhelper'' \<and> ws1 \<noteq> [] \<and> (\<forall>c\<in>set ws1. is_space c)
        \<and> map lower k2 = ''version'' \<and> ws2 \<noteq> [] \<and> (\<forall>c\<in>set ws2. is_space c)
        \<and> d \<noteq> [] \<and> (\<forall>c\<in>set d. is_digit c) \<and> (post = [] \<or> \<not> is_digit (hd post)))"

definition reported_major :: "string \<Rightarrow> string \<Rightarrow> bool" where
  "reported_major out d \<longleftrightarrow> first_match debhelper_version_here out d"

definition reports_version :: "string \<Rightarrow> bool" where
  "reports_version out \<longleftrightarrow> some_match debhelper_version_here out"





section \<open>PackageBuilder (deb\_publish.py)\<close>

text \<open>
  A path is a directory and a file name (\<open>p.name\<close>); the file system is the list of the
  files present, each with its content.
\<close>

type_synonym path = "string \<times> string"

type_synonym files = "(path \<times> string) list"

definition path_name :: "path \<Rightarrow> string" where
  "path_name p = snd p"

definition ends_with :: "string \<Rightarrow> string \<Rightarrow> bool" where
  "ends_with suffix s \<longleftrightarrow>
     length suffix \<le> length s \<and> drop (length s - length suffix) s = suffix"

definition glob_deb :: "files \<Rightarrow> string \<Rightarrow> path list" where
  \<comment> \<open>\<open>dir.glob("*.deb")\<close>\<close>
  "glob_deb fs dir = [p \<leftarrow> map fst fs. fst p = dir \<and> ends_with ''.deb'' (path_name p)]"

definition copy2 :: "files \<Rightarrow> path \<Rightarrow> path \<Rightarrow> files res" where
  \<comment> \<open>\<open>shutil.copy2(src, dst)\<close>: the destination gets the content of the source\<close>
  "copy2 fs src dst =
     (if src = dst then Raise SameFileError
      else (case map_of fs src of
              None \<Rightarrow> Raise FileNotFoundError
            | Some content \<Rightarrow> Ret ((dst, content) # [e \<leftarrow> fs. fst e \<noteq> dst])))"

fun copy_loop :: "string \<Rightarrow> path list \<Rightarrow> files \<Rightarrow> (path list \<times> files) res" where
  \<comment> \<open>the \<open>for p in new_files\<close> loop of \<open>_copy_new_debs\<close>\<close>
  "copy_loop dist_dir [] fs = Ret ([], fs)"
| "copy_loop dist_dir (p # ps) fs =
     (let dest = (dist_dir, path_name p)
      in (case copy2 fs p dest of
            Ret fs' \<Rightarrow>
              (case copy_loop dist_dir ps fs' of
                 Ret (copied, fs'') \<Rightarrow> Ret (dest # copied, fs'')
               | Exit c \<Rightarrow> Exit c
               | Raise e \<Rightarrow> Raise e)
          | Exit c \<Rightarrow> Exit c
          | Raise e \<Rightarrow> Raise e))"

definition copy_new_debs :: "string \<Rightarrow> files \<Rightarrow> string \<Rightarrow> string set \<Rightarrow> (path list \<times> files) res" where
  \<comment> \<open>\<open>_copy_new_debs(build_parent, before)\<close>; \<open>dist_dir\<close> is the constant \<open>DIST_DIR\<close>\<close>
  "copy_new_debs dist_dir fs build_parent before =
     (let after = glob_deb fs build_parent;
          new_files = [p \<leftarrow> after. path_name p \<notin> before]
      in if new_files = [] then Ret ([], fs) else copy_loop dist_dir new_files fs)"

fun contains :: "string \<Rightarrow> string \<Rightarrow> bool" where
  \<comment> \<open>\<open>sub in s\<close>\<close>
  "contains sub [] = (sub = [])"
| "contains sub (c # cs) = (strip_prefix sub (c # cs) \<noteq> None \<or> contains sub cs)"

fun str_less :: "string \<Rightarrow> string \<Rightarrow> bool" where
  \<comment> \<open>\<open><\<close> on strings: by code point, a proper prefix first\<close>
  "str_less [] [] = False"
| "str_less [] (y # ys) = True"
| "str_less (x # xs) [] = False"
| "str_less (x # xs) (y # ys) = (code x < code y \<or> (x = y \<and> str_less xs ys))"

definition key_less :: "path \<Rightarrow> path \<Rightarrow> bool" where
  \<comment> \<open>the order of the sort key \<open>("dbgsym" in p.name, p.name)\<close>\<close>
  "key_less p q =
     (let a = contains ''dbgsym'' (path_name p); b = contains ''dbgsym'' (path_name q)
      in (\<not> a \<and> b) \<or> (a = b \<and> str_less (path_name p) (path_name q)))"

definition canonical :: "path \<Rightarrow> path list \<Rightarrow> path" where
  \<comment> \<open>element 0 after the stable sort of a non-empty list: the first one with the least key\<close>
  "canonical p ps = foldl (\<lambda>best q. if key_less q best then q else best) p ps"

definition build_deb :: "string \<Rightarrow> string \<Rightarrow> (files \<Rightarrow> int option \<times> files) \<Rightarrow> files \<Rightarrow> (path option \<times> files) res" where
  \<comment> \<open>\<open>build_deb\<close> from the snapshot on: \<open>fs\<close> is the file system once the working copy and the
      skeleton are written, \<open>build_parent\<close> the temporary directory above the working copy,
      \<open>dpkg_buildpackage\<close> the build subprocess (no exit code when it cannot be started)\<close>
  "build_deb dist_dir build_parent dpkg_buildpackage fs =
     (let before = set (map path_name (glob_deb fs build_parent));
          (rc, fs1) = dpkg_buildpackage fs
      in (case rc of
            None \<Rightarrow> Raise FileNotFoundError
          | Some returncode \<Rightarrow>
              if returncode \<noteq> 0 then Exit returncode
              else (case copy_new_debs dist_dir fs1 build_parent before of
                      Ret (copied, fs2) \<Rightarrow>
                        (case copied of
                           [] \<Rightarrow> Ret (None, fs2)
                         | p # ps \<Rightarrow> Ret (Some (canonical p ps), fs2))
                    | Exit c \<Rightarrow> Exit c
                    | Raise e \<Rightarrow> Raise e)))"

section \<open>ReleaseOrchestrator (release.py)\<close>

text \<open>
  The script talks to the outside through subprocesses, the file system, the search path
  and its standard input. What it does is recorded as a trace of events; what the outside
  answers is given by a \<open>world\<close>, whose answers may depend on everything the script did
  before (the trace so far). Standard input is the list of the lines still to be read.
\<close>

datatype phase =
    Start               \<comment> \<open>\<open>print_header("kport Automated Release")\<close>\<close>
  | PreflightChecks     \<comment> \<open>\<open>print_header("Pre-flight Checks")\<close>\<close>
  | CreatingGitTag      \<comment> \<open>\<open>print_header("Creating Git Tag")\<close>\<close>
  | BuildingPyPI        \<comment> \<open>\<open>print_header("Building PyPI Packages")\<close>\<close>
  | BuildingDebian      \<comment> \<open>\<open>print_header("Building Debian Package")\<close>\<close>
  | CreatingRelease     \<comment> \<open>\<open>print_header("Creating GitHub Release")\<close>\<close>
  | ReleaseComplete     \<comment> \<open>\<open>print_header("Release Complete")\<close>, the summary\<close>

datatype event =
    Header phase
  | Exec "string list"  \<comment> \<open>a subprocess was asked to run this command line\<close>
  | ReadLine            \<comment> \<open>\<open>input()\<close> was called\<close>

record world =
  repo_root :: string
  setup_text :: "string option"
  which :: "event list \<Rightarrow> string \<Rightarrow> bool"
  run :: "event list \<Rightarrow> string list \<Rightarrow> proc"
  path_exists :: "event list \<Rightarrow> string \<Rightarrow> bool"
  glob :: "event list \<Rightarrow> string \<Rightarrow> string \<Rightarrow> string list"

record run_state =
  trace :: "event list"
  stdin :: "string list"

type_synonym 'a prog = "run_state \<Rightarrow> 'a res \<times> run_state"

definition ret :: "'a \<Rightarrow> 'a prog" where
  "ret x s = (Ret x, s)"

definition then_do :: "'a prog \<Rightarrow> ('a \<Rightarrow> 'b prog) \<Rightarrow> 'b prog" where
  \<comment> \<open>sequencing: \<open>sys.exit\<close> and exceptions end the run\<close>
  "then_do m f s =
     (case m s of
        (Ret x, s') \<Rightarrow> f x s'
      | (Exit c, s') \<Rightarrow> (Exit c, s')
      | (Raise e, s') \<Rightarrow> (Raise e, s'))"

definition sys_exit :: "int \<Rightarrow> 'a prog" where
  "sys_exit c s = (Exit c, s)"

definition emit :: "event \<Rightarrow> unit prog" where
  "emit e s = (Ret (), s\<lparr>trace := trace s @ [e]\<rparr>)"

definition print_header :: "phase \<Rightarrow> unit prog" where
  "print_header p = emit (Header p)"

definition subprocess_run :: "world \<Rightarrow> string list \<Rightarrow> (int \<times> string \<times> string) prog" where
  \<comment> \<open>\<open>subprocess.run(cmd, ...)\<close>: exit code, stdout, stderr; an exception when the program
      cannot be started\<close>
  "subprocess_run w cmd s =
     (case run w (trace s) cmd of
        NotFound \<Rightarrow> (Raise FileNotFoundError, s\<lparr>trace := trace s @ [Exec cmd]\<rparr>)
      | Completed rc out err \<Rightarrow> (Ret (rc, out, err), s\<lparr>trace := trace s @ [Exec cmd]\<rparr>))"

definition py_input :: "string prog" where
  \<comment> \<open>\<open>input()\<close>\<close>
  "py_input s =
     (case stdin s of
        [] \<Rightarrow> (Raise EOFError, s\<lparr>trace := trace s @ [ReadLine]\<rparr>)
      | l # ls \<Rightarrow> (Ret l, s\<lparr>trace := trace s @ [ReadLine], stdin := ls\<rparr>))"

definition run_command :: "world \<Rightarrow> string list \<Rightarrow> bool \<Rightarrow> int prog" where
  \<comment> \<open>\<open>run_command(cmd, description, check)\<close>; the result is the exit code\<close>
  "run_command w cmd check =
     then_do (subprocess_run w cmd) (\<lambda>(rc, out, err).
       if check \<and> rc \<noteq> 0 then sys_exit rc else ret rc)"

definition command_exists :: "world \<Rightarrow> string \<Rightarrow> bool prog" where
  "command_exists w name s = (Ret (which w (trace s) name), s)"

definition exists :: "world \<Rightarrow> string \<Rightarrow> bool prog" where
  \<comment> \<open>\<open>Path.exists()\<close>\<close>
  "exists w p s = (Ret (path_exists w (trace s) p), s)"

definition glob_list :: "world \<Rightarrow> string \<Rightarrow> string \<Rightarrow> string list prog" where
  \<comment> \<open>\<open>list(dir.glob(pattern))\<close>\<close>
  "glob_list w dir pattern s = (Ret (glob w (trace s) dir pattern), s)"

definition git_status_cmd :: "string list" where
  "git_status_cmd = [''git'', ''status'', ''--porcelain'']"

definition git_tag_list_cmd :: "string \<Rightarrow> string list" where
  "git_tag_list_cmd tag = [''git'', ''tag'', ''-l'', tag]"

definition check_git_status :: "world \<Rightarrow> bool prog" where
  "check_git_status w =
     then_do (subprocess_run w git_status_cmd) (\<lambda>(rc, out, err).
       ret (length (strip out) = 0))"

definition check_tag_exists :: "world \<Rightarrow> string \<Rightarrow> bool prog" where
  "check_tag_exists w tag =
     then_do (subprocess_run w (git_tag_list_cmd tag)) (\<lambda>(rc, out, err).
       ret (length (strip out) > 0))"

definition default_notes :: "string \<Rightarrow> string" where
  "default_notes version =
     text_lines
       [''Release '' @ version,
        '''',
        ''Changes in this release:'',
        ''- Bug fixes and improvements'',
        ''- See commit history for details'',
        '''',
        ''Install:'',
        ''  pip install kport=='' @ version]"

definition read_until_eof :: "string list prog" where
  \<comment> \<open>the \<open>while True: lines.append(input())\<close> loop, left by \<open>EOFError\<close>: it reads all the
      lines that standard input still has\<close>
  "read_until_eof s =
     (Ret (stdin s),
      s\<lparr>trace := trace s @ replicate (Suc (length (stdin s))) ReadLine, stdin := []\<rparr>)"

definition get_release_notes :: "string \<Rightarrow> string prog" where
  "get_release_notes version =
     then_do py_input (\<lambda>answer.
       let use_default = map lower (strip answer)
       in if use_default \<in> set ['''', ''y'', ''yes''] then ret (default_notes version)
          else then_do read_until_eof (\<lambda>lines.
                 ret (if join_lines lines = [] then default_notes version
                      else join_lines lines)))"

definition build_pypi_packages :: "world \<Rightarrow> bool \<Rightarrow> bool prog" where
  "build_pypi_packages w dry_run =
     (if dry_run then ret True
      else then_do (print_header BuildingPyPI) (\<lambda>_.
           then_do (command_exists w ''python3'') (\<lambda>have_python.
             if \<not> have_python then ret False
             else then_do (exists w (repo_root w @ ''/publish.py'')) (\<lambda>have_script.
               if \<not> have_script then ret False
               else then_do (subprocess_run w [''python3'', repo_root w @ ''/publish.py''])
                      (\<lambda>(rc, out, err).
                 if rc \<noteq> 0 then ret False
                 else then_do (exists w (repo_root w @ ''/dist'')) (\<lambda>have_dist.
                      then_do (glob_list w (repo_root w @ ''/dist'') ''*.whl'') (\<lambda>wheels.
                        if \<not> have_dist \<or> wheels = [] then ret False
                        else ret True)))))))"

definition build_debian_package :: "world \<Rightarrow> bool \<Rightarrow> bool prog" where
  "build_debian_package w dry_run =
     (if dry_run then ret True
      else then_do (print_header BuildingDebian) (\<lambda>_.
           then_do (exists w (repo_root w @ ''/deb_publish.py'')) (\<lambda>have_script.
             if \<not> have_script then ret False
             else then_do (subprocess_run w [''python3'', repo_root w @ ''/deb_publish.py''])
                    (\<lambda>(rc, out, err).
               if rc \<noteq> 0 then ret False
               else then_do (exists w (repo_root w @ ''/dist/deb'')) (\<lambda>have_dir.
                    then_do (glob_list w (repo_root w @ ''/dist/deb'') ''*.deb'') (\<lambda>debs.
                      if \<not> have_dir \<or> debs = [] then ret False
                      else ret True))))))"

definition gh_release_cmd :: "string \<Rightarrow> string \<Rightarrow> string \<Rightarrow> string list \<Rightarrow> string list" where
  "gh_release_cmd version tag notes assets =
     [''gh'', ''release'', ''create'', tag, ''--title'', ''kport '' @ version, ''--notes'', notes]
     @ assets"

definition create_github_release :: "world \<Rightarrow> string \<Rightarrow> string \<Rightarrow> string \<Rightarrow> bool \<Rightarrow> bool prog" where
  "create_github_release w version tag notes dry_run =
     then_do (command_exists w ''gh'') (\<lambda>have_gh.
       if \<not> have_gh then ret False
       else if dry_run then ret True
       else then_do (print_header CreatingRelease) (\<lambda>_.
            then_do (glob_list w (repo_root w @ ''/dist'') ''*.whl'') (\<lambda>wheels.
            then_do (exists w (repo_root w @ ''/dist/deb'')) (\<lambda>have_deb_dir.
            then_do (if have_deb_dir then glob_list w (repo_root w @ ''/dist/deb'') ''*.deb''
                     else ret []) (\<lambda>debs.
            then_do (run_command w (gh_release_cmd version tag notes (wheels @ debs)) False)
              (\<lambda>rc. if rc \<noteq> 0 then ret False else ret True))))))"

record args =
  version_arg :: "string option"
  no_pypi :: bool
  no_deb :: bool
  no_github :: bool
  dry_run :: bool

record summary =
  pypi_success :: bool
  deb_success :: bool

definition resolve_version :: "args \<Rightarrow> string \<Rightarrow> string" where
  \<comment> \<open>\<open>args.version or current_version\<close>\<close>
  "resolve_version a current_version =
     (case version_arg a of
        None \<Rightarrow> current_version
      | Some v \<Rightarrow> if v = [] then current_version else v)"

definition preflight :: "world \<Rightarrow> args \<Rightarrow> (string \<times> string) prog" where
  \<comment> \<open>steps 1 and 2 of \<open>main\<close>: the version and tag of the release, once the checks pass\<close>
  "preflight w a =
     then_do (print_header Start) (\<lambda>_.
       case read_version_from_setup (setup_text w) of
         None \<Rightarrow> sys_exit 1
       | Some current_version \<Rightarrow>
           if current_version = [] then sys_exit 1
           else (let version = resolve_version a current_version;
                     tag = ''v'' @ version
                 in then_do (print_header PreflightChecks) (\<lambda>_.
                    then_do (check_git_status w) (\<lambda>clean.
                      if \<not> clean then sys_exit 1
                      else then_do (check_tag_exists w tag) (\<lambda>tag_exists.
                        if tag_exists then sys_exit 1
                        else ret (version, tag))))))"

definition confirm_and_tag :: "world \<Rightarrow> args \<Rightarrow> string \<Rightarrow> string \<Rightarrow> unit prog" where
  \<comment> \<open>steps 3 and 4 of \<open>main\<close>\<close>
  "confirm_and_tag w a version tag =
     then_do (if \<not> dry_run a
              then then_do py_input (\<lambda>answer.
                     if map lower (strip answer) \<notin> set [''y'', ''yes''] then sys_exit 0
                     else ret ())
              else ret ()) (\<lambda>_.
     then_do (print_header CreatingGitTag) (\<lambda>_.
       if \<not> dry_run a
       then then_do (run_command w [''git'', ''tag'', ''-a'', tag, ''-m'', ''Release '' @ version] True) (\<lambda>_.
            then_do (run_command w [''git'', ''push'', ''origin'', ''main''] True) (\<lambda>_.
            then_do (run_command w [''git'', ''push'', ''origin'', ''--tags''] True) (\<lambda>_.
              ret ())))
       else ret ()))"

definition build_and_publish :: "world \<Rightarrow> args \<Rightarrow> string \<Rightarrow> string \<Rightarrow> summary prog" where
  \<comment> \<open>steps 5 to 7 of \<open>main\<close> and the summary\<close>
  "build_and_publish w a version tag =
     then_do (if \<not> no_pypi a then build_pypi_packages w (dry_run a) else ret True) (\<lambda>pypi_ok.
     then_do (if \<not> no_deb a then build_debian_package w (dry_run a) else ret True) (\<lambda>deb_ok.
     then_do (if \<not> no_github a \<and> \<not> dry_run a then get_release_notes version
              else ret (''Release '' @ version)) (\<lambda>notes.
     then_do (if \<not> no_github a
              then then_do (create_github_release w version tag notes (dry_run a)) (\<lambda>_. ret ())
              else ret ()) (\<lambda>_.
     then_do (print_header ReleaseComplete) (\<lambda>_.
       ret \<lparr> pypi_success = pypi_ok, deb_success = deb_ok \<rparr>)))))"

definition main :: "world \<Rightarrow> args \<Rightarrow> summary prog" where
  "main w a =
     then_do (preflight w a) (\<lambda>(version, tag).
     then_do (confirm_and_tag w a version tag) (\<lambda>_.
       build_and_publish w a version tag))"

definition script :: "world \<Rightarrow> args \<Rightarrow> string list \<Rightarrow> summary res \<times> run_state" where
  \<comment> \<open>the \<open>__main__\<close> block on a fresh process: an exception of \<open>main\<close> becomes exit code 1\<close>
  "script w a input_lines =
     (case main w a \<lparr> trace = [], stdin = input_lines \<rparr> of
        (Raise e, s) \<Rightarrow> (Exit 1, s)
      | r \<Rightarrow> r)"

definition read_only :: "event \<Rightarrow> bool" where
  \<comment> \<open>events that change nothing outside the script: headers, prompts, and the two
      queries \<open>git status --porcelain\<close> and \<open>git tag -l <tag>\<close>\<close>
  "read_only e =
     (case e of
        Header p \<Rightarrow> True
      | ReadLine \<Rightarrow> True
      | Exec cmd \<Rightarrow> cmd = git_status_cmd \<or> (length cmd = 4 \<and> take 3 cmd = [''git'', ''tag'', ''-l'']))"

definition tag_listed :: "world \<Rightarrow> string \<Rightarrow> bool" where
  \<comment> \<open>the tag exists: whenever asked, \<open>git tag -l tag\<close> runs and prints a match\<close>
  "tag_listed w tag \<longleftrightarrow>
     (\<forall>h. \<exists>rc out err. run w h (git_tag_list_cmd tag) = Completed rc out err \<and> strip out \<noteq> [])"

definition tag_absent :: "world \<Rightarrow> string \<Rightarrow> bool" where
  \<comment> \<open>the tag does not exist: \<open>git tag -l tag\<close> runs and prints nothing\<close>
  "tag_absent w tag \<longleftrightarrow>
     (\<forall>h. \<exists>rc out err. run w h (git_tag_list_cmd tag) = Completed rc out err \<and> strip out = [])"

definition repo_clean :: "world \<Rightarrow> bool" where
  \<comment> \<open>the working directory is clean: \<open>git status --porcelain\<close> runs and prints nothing\<close>
  "repo_clean w \<longleftrightarrow>
     (\<forall>h. \<exists>rc out err. run w h git_status_cmd = Completed rc out err \<and> strip out = [])"

section \<open>Example worlds\<close>

text \<open>
  Concrete worlds on which the statements below are run: a directory that is not a git
  repository, a machine without git, a repository where the release tag already exists,
  a clean repository ready for a release, and one where the PyPI build fails.
\<close>

definition example_setup :: string where
  "example_setup = ''setup(name=\"kport\", version=\"1.2.3\", py_modules=[])''"

definition not_a_repository :: world where
  "not_a_repository =
     \<lparr> repo_root = ''/repo'', setup_text = Some example_setup,
       which = (\<lambda>h name. True),
       run = (\<lambda>h cmd. Completed 128 [] ''fatal: not a git repository''),
       path_exists = (\<lambda>h p. False),
       glob = (\<lambda>h dir pattern. []) \<rparr>"

definition no_git :: world where
  "no_git =
     \<lparr> repo_root = ''/repo'', setup_text = Some example_setup,
       which = (\<lambda>h name. False),
       run = (\<lambda>h cmd. NotFound),
       path_exists = (\<lambda>h p. False),
       glob = (\<lambda>h dir pattern. []) \<rparr>"

definition tagged_repository :: world where
  "tagged_repository =
     \<lparr> repo_root = ''/repo'', setup_text = Some example_setup,
       which = (\<lambda>h name. True),
       run = (\<lambda>h cmd. if cmd = git_tag_list_cmd ''v1.2.3'' then Completed 0 (''v1.2.3'' @ [nl]) []
                       else Completed 0 [] []),
       path_exists = (\<lambda>h p. True),
       glob = (\<lambda>h dir pattern. [dir @ ''/kport-1.2.3.'' @ drop 2 pattern]) \<rparr>"

definition ready_repository :: world where
  "ready_repository =
     \<lparr> repo_root = ''/repo'', setup_text = Some example_setup,
       which = (\<lambda>h name. True),
       run = (\<lambda>h cmd. Completed 0 [] []),
       path_exists = (\<lambda>h p. True),
       glob = (\<lambda>h dir pattern. [dir @ ''/kport-1.2.3.'' @ drop 2 pattern]) \<rparr>"

definition pypi_build_fails :: world where
  "pypi_build_fails =
     \<lparr> repo_root = ''/repo'', setup_text = Some example_setup,
       which = (\<lambda>h name. True),
       run = (\<lambda>h cmd. if cmd = [''python3'', ''/repo/publish.py''] then Completed 1 [] []
                       else Completed 0 [] []),
       path_exists = (\<lambda>h p. True),
       glob = (\<lambda>h dir pattern. [dir @ ''/kport-1.2.3.'' @ drop 2 pattern]) \<rparr>"

definition release_args :: args where
  "release_args =
     \<lparr> version_arg = None, no_pypi = False, no_deb = False, no_github = False, dry_run = False \<rparr>"

definition dry_run_args :: args where
  "dry_run_args =
     \<lparr> version_arg = None, no_pypi = False, no_deb = False, no_github = False, dry_run = True \<rparr>"

definition example_build_host :: gen_env where
  \<comment> \<open>a build machine with debhelper 13 and a maintainer set in the environment\<close>
  "example_build_host =
     \<lparr> setup_py = Some example_setup,
       environ = [''DEBFULLNAME'' \<mapsto> ''Ada Lovelace'', ''EMAIL'' \<mapsto> ''ada@example.org''],
       dh_exists = True,
       dh_version = Completed 0 ''debhelper version 13.11.4'' [],
       rfc2822_now_utc = ''Wed, 04 Nov 2026 12:00:00 +0000'' \<rparr>"

section \<open>Facts about the text functions\<close>

lemma strip_prefix_Some_iff: "strip_prefix p s = Some r \<longleftrightarrow> s = p @ r"
  by (induction p s rule: strip_prefix.induct) auto

lemma dropWhile_eq_ConsD:
  assumes "dropWhile P s = c # r"
  shows "\<exists>ws. s = ws @ c # r \<and> (\<forall>x\<in>set ws. P x) \<and> \<not> P c"
proof -
  have "s = takeWhile P s @ c # r"
    using assms takeWhile_dropWhile_id [of P s] by simp
  moreover have "\<forall>x\<in>set (takeWhile P s). P x"
    by (auto dest: set_takeWhileD)
  moreover have "\<not> P c"
    using assms hd_dropWhile [of P s] by auto
  ultimately show ?thesis by blast
qed

lemma dropWhile_run:
  assumes "\<forall>x\<in>set ws. P x" "\<not> P c"
  shows "dropWhile P (ws @ c # r) = c # r"
  using assms by (induction ws) auto

lemma takeWhile_run:
  assumes "\<forall>x\<in>set ws. P x" "\<not> P c"
  shows "takeWhile P (ws @ c # r) = ws"
  using assms by (induction ws) auto

lemma space_not_eq: "\<not> is_space CHR ''=''"
  by (simp add: is_space_def code_def)

lemma quote_not_space: "is_quote q \<Longrightarrow> \<not> is_space q"
  by (auto simp: is_quote_def is_space_def code_def)

lemma match_version_sound:
  assumes "match_version s = Some X"
  shows "version_assignment s X"
proof -
  from assms obtain r1 where r1: "strip_prefix ''version'' s = Some r1"
    by (auto simp: match_version_def split: option.splits)
  from assms r1 obtain r2 where r2: "dropWhile is_space r1 = CHR ''='' # r2"
    by (auto simp: match_version_def split: option.splits list.splits if_splits)
  from assms r1 r2 obtain q r3 where r3: "dropWhile is_space r2 = q # r3" and q: "is_quote q"
    by (auto simp: match_version_def split: option.splits list.splits if_splits)
  from assms r1 r2 r3 q have X: "X = takeWhile (\<lambda>c. \<not> is_quote c) r3" "X \<noteq> []"
    and r4: "dropWhile (\<lambda>c. \<not> is_quote c) r3 \<noteq> []"
    by (auto simp: match_version_def Let_def split: if_splits)
  from r4 obtain q' post where r4': "dropWhile (\<lambda>c. \<not> is_quote c) r3 = q' # post"
    by (cases "dropWhile (\<lambda>c. \<not> is_quote c) r3") auto
  have q': "is_quote q'" using hd_dropWhile [of "\<lambda>c. \<not> is_quote c" r3] r4' by auto
  have s: "s = ''version'' @ r1" using r1 by (simp only: strip_prefix_Some_iff)
  from dropWhile_eq_ConsD [OF r2] obtain ws1 where ws1: "r1 = ws1 @ CHR ''='' # r2" "\<forall>x\<in>set ws1. is_space x"
    by blast
  from dropWhile_eq_ConsD [OF r3] obtain ws2 where ws2: "r2 = ws2 @ q # r3" "\<forall>x\<in>set ws2. is_space x"
    by blast
  have r3eq: "r3 = X @ q' # post"
    using takeWhile_dropWhile_id [of "\<lambda>c. \<not> is_quote c" r3] X r4' by simp
  have Xq: "\<forall>c\<in>set X. \<not> is_quote c"
    using X by (auto dest: set_takeWhileD)
  have "s = ''version'' @ ws1 @ ''='' @ ws2 @ [q] @ X @ [q'] @ post"
    using s ws1 ws2 r3eq by simp
  then show ?thesis
    unfolding version_assignment_def using ws1 ws2 q q' X Xq by blast
qed

lemma match_version_complete:
  assumes "version_assignment s X"
  shows "match_version s = Some X"
proof -
  from assms obtain ws1 ws2 q q' post where
    s: "s = ''version'' @ ws1 @ ''='' @ ws2 @ [q] @ X @ [q'] @ post"
    and ws1: "\<forall>c\<in>set ws1. is_space c" and ws2: "\<forall>c\<in>set ws2. is_space c"
    and q: "is_quote q" and q': "is_quote q'" and X: "X \<noteq> []" "\<forall>c\<in>set X. \<not> is_quote c"
    unfolding version_assignment_def by blast
  have 1: "strip_prefix ''version'' s = Some (ws1 @ CHR ''='' # ws2 @ q # X @ q' # post)"
    unfolding strip_prefix_Some_iff s by simp
  have 2: "dropWhile is_space (ws1 @ CHR ''='' # ws2 @ q # X @ q' # post) = CHR ''='' # ws2 @ q # X @ q' # post"
    using ws1 space_not_eq by (rule dropWhile_run)
  have 3: "dropWhile is_space (ws2 @ q # X @ q' # post) = q # X @ q' # post"
    using ws2 quote_not_space [OF q] by (rule dropWhile_run)
  have 4: "takeWhile (\<lambda>c. \<not> is_quote c) (X @ q' # post) = X"
    using X(2) q' by (intro takeWhile_run) auto
  have 5: "dropWhile (\<lambda>c. \<not> is_quote c) (X @ q' # post) = q' # post"
    using X(2) q' by (intro dropWhile_run) auto
  show ?thesis
    unfolding match_version_def 1 by (simp only: 2 3 4 5 option.case list.case Let_def q X) simp
qed

lemma match_version_iff: "match_version s = Some X \<longleftrightarrow> version_assignment s X"
  using match_version_sound match_version_complete by blast

lemma last_opt_Nil: "last_opt prev [] = prev"
  by (simp add: last_opt_def)

lemma last_opt_Cons: "last_opt prev (p # pre) = last_opt (Some p) pre"
  by (simp add: last_opt_def)

lemma search_from_None_iff:
  "search_from m prev s = None \<longleftrightarrow> (\<forall>pre rest. s = pre @ rest \<longrightarrow> m (last_opt prev pre) rest = None)"
proof (induction s arbitrary: prev)
  case Nil
  then show ?case by (simp add: last_opt_def)
next
  case (Cons c cs)
  show ?case
  proof
    assume a: "search_from m prev (c # cs) = None"
    then have h: "m prev (c # cs) = None" and t: "search_from m (Some c) cs = None"
      by (auto split: option.splits)
    show "\<forall>pre rest. c # cs = pre @ rest \<longrightarrow> m (last_opt prev pre) rest = None"
    proof (intro allI impI)
      fix pre rest assume e: "c # cs = pre @ rest"
      show "m (last_opt prev pre) rest = None"
      proof (cases pre)
        case Nil
        then show ?thesis using e h by (simp add: last_opt_def)
      next
        case (Cons p pre')
        then have "cs = pre' @ rest" "p = c" using e by auto
        then have "m (last_opt (Some c) pre') rest = None"
          using t Cons.IH [of "Some c"] by blast
        then show ?thesis using Cons \<open>p = c\<close> by (simp add: last_opt_Cons)
      qed
    qed
  next
    assume a: "\<forall>pre rest. c # cs = pre @ rest \<longrightarrow> m (last_opt prev pre) rest = None"
    from a [rule_format, of "[]" "c # cs"] have h: "m prev (c # cs) = None"
      by (simp add: last_opt_def)
    have "\<forall>pre rest. cs = pre @ rest \<longrightarrow> m (last_opt (Some c) pre) rest = None"
    proof (intro allI impI)
      fix pre rest assume "cs = pre @ rest"
      then have "c # cs = (c # pre) @ rest" by simp
      from a [rule_format, OF this] show "m (last_opt (Some c) pre) rest = None"
        by (simp add: last_opt_Cons)
    qed
    then have "search_from m (Some c) cs = None" using Cons.IH by blast
    then show "search_from m prev (c # cs) = None" using h by simp
  qed
qed

lemma search_from_first:
  assumes "s = pre @ rest" "m (last_opt prev pre) rest = Some x"
    and "\<forall>pre' rest'. s = pre' @ rest' \<and> length pre' < length pre \<longrightarrow> m (last_opt prev pre') rest' = None"
  shows "search_from m prev s = Some x"
  using assms
proof (induction pre arbitrary: s prev)
  case Nil
  then show ?case by (cases s) (auto simp: last_opt_def)
next
  case (Cons p pre)
  from Cons.prems(1) have s: "s = p # (pre @ rest)" by simp
  from Cons.prems(3) [rule_format, of "[]" s] have h: "m prev s = None"
    by (simp add: last_opt_def)
  have "search_from m (Some p) (pre @ rest) = Some x"
  proof (rule Cons.IH [OF refl])
    show "m (last_opt (Some p) pre) rest = Some x"
      using Cons.prems(2) by (simp add: last_opt_Cons)
    show "\<forall>pre' rest'. pre @ rest = pre' @ rest' \<and> length pre' < length pre \<longrightarrow> m (last_opt (Some p) pre') rest' = None"
    proof (intro allI impI)
      fix pre' rest' assume a: "pre @ rest = pre' @ rest' \<and> length pre' < length pre"
      then have "s = (p # pre') @ rest' \<and> length (p # pre') < length (p # pre)" using s by simp
      from Cons.prems(3) [rule_format, OF this] show "m (last_opt (Some p) pre') rest' = None"
        by (simp add: last_opt_Cons)
    qed
  qed
  then show ?case using h s by simp
qed

lemma search_from_SomeD:
  assumes "search_from m prev s = Some x"
  shows "\<exists>pre rest. s = pre @ rest \<and> m (last_opt prev pre) rest = Some x
           \<and> (\<forall>pre' rest'. s = pre' @ rest' \<and> length pre' < length pre
                 \<longrightarrow> m (last_opt prev pre') rest' = None)"
  using assms
proof (induction s arbitrary: prev)
  case Nil
  then have "[] = [] @ [] \<and> m (last_opt prev []) [] = Some x" by (simp add: last_opt_Nil)
  then show ?case by (metis length_greater_0_conv less_nat_zero_code list.size(3))
next
  case (Cons c cs)
  show ?case
  proof (cases "m prev (c # cs)")
    case (Some y)
    then have "m (last_opt prev []) (c # cs) = Some x"
      using Cons.prems by (simp add: last_opt_Nil)
    then have "c # cs = [] @ (c # cs) \<and> m (last_opt prev []) (c # cs) = Some x
        \<and> (\<forall>pre' rest'. c # cs = pre' @ rest' \<and> length pre' < length ([]::string)
              \<longrightarrow> m (last_opt prev pre') rest' = None)"
      by simp
    then show ?thesis by blast
  next
    case None
    then have "search_from m (Some c) cs = Some x" using Cons.prems by simp
    from Cons.IH [OF this] obtain pre rest where
      cs: "cs = pre @ rest" and hit: "m (last_opt (Some c) pre) rest = Some x"
      and early: "\<forall>pre' rest'. cs = pre' @ rest' \<and> length pre' < length pre
                    \<longrightarrow> m (last_opt (Some c) pre') rest' = None"
      by blast
    have "\<forall>pre' rest'. c # cs = pre' @ rest' \<and> length pre' < length (c # pre)
            \<longrightarrow> m (last_opt prev pre') rest' = None"
    proof (intro allI impI)
      fix pre' rest' assume a: "c # cs = pre' @ rest' \<and> length pre' < length (c # pre)"
      show "m (last_opt prev pre') rest' = None"
      proof (cases pre')
        case Nil
        then show ?thesis using a None by (simp add: last_opt_Nil)
      next
        case (Cons p pre'')
        then have "cs = pre'' @ rest' \<and> length pre'' < length pre" and "p = c" using a by auto
        then show ?thesis using early Cons by (simp add: last_opt_Cons)
      qed
    qed
    moreover have "c # cs = (c # pre) @ rest" using cs by simp
    moreover have "m (last_opt prev (c # pre)) rest = Some x" using hit by (simp add: last_opt_Cons)
    ultimately show ?thesis by blast
  qed
qed

lemma version_assignment_starts:
  "version_assignment rest X \<Longrightarrow> \<exists>r. rest = CHR ''v'' # r"
  by (auto simp: version_assignment_def)

lemma word_boundary_before_v:
  "word_boundary (last_opt None pre) (CHR ''v'' # r) \<longleftrightarrow> pre = [] \<or> \<not> is_word (last pre)"
  by (simp add: word_boundary_def last_opt_def is_word_def is_lower_def code_def)

lemma release_pattern_iff:
  "release_version_pattern (last_opt None pre) rest = Some X \<longleftrightarrow> assignment_here False pre rest X"
  by (simp add: release_version_pattern_def assignment_here_def match_version_iff)

lemma deb_pattern_iff:
  "deb_version_pattern (last_opt None pre) rest = Some X \<longleftrightarrow> assignment_here True pre rest X"
proof
  assume a: "deb_version_pattern (last_opt None pre) rest = Some X"
  then have wbd: "word_boundary (last_opt None pre) rest" and m: "match_version rest = Some X"
    by (auto simp: deb_version_pattern_def split: if_splits)
  from m have va: "version_assignment rest X" by (simp only: match_version_iff)
  then obtain r where "rest = CHR ''v'' # r" using version_assignment_starts by blast
  then have "pre = [] \<or> \<not> is_word (last pre)" using wbd word_boundary_before_v by simp
  then show "assignment_here True pre rest X" using va by (simp add: assignment_here_def)
next
  assume a: "assignment_here True pre rest X"
  then have va: "version_assignment rest X" and b: "pre = [] \<or> \<not> is_word (last pre)"
    by (auto simp: assignment_here_def)
  from va obtain r where "rest = CHR ''v'' # r" using version_assignment_starts by blast
  then have "word_boundary (last_opt None pre) rest" using b word_boundary_before_v by simp
  then show "deb_version_pattern (last_opt None pre) rest = Some X"
    using va by (simp add: deb_version_pattern_def match_version_iff)
qed

lemma pattern_None_iff:
  "(m (last_opt None pre) rest = None) \<longleftrightarrow> (\<forall>Y. m (last_opt None pre) rest \<noteq> Some Y)"
  by (cases "m (last_opt None pre) rest") auto

lemma first_assignment_release_iff:
  "first_assignment False text X \<longleftrightarrow> re_search release_version_pattern text = Some X"
proof
  assume "first_assignment False text X"
  then obtain pre rest where t: "text = pre @ rest" and h: "assignment_here False pre rest X"
    and e: "\<forall>pre' rest' Y. text = pre' @ rest' \<and> length pre' < length pre
              \<longrightarrow> \<not> assignment_here False pre' rest' Y"
    unfolding first_assignment_def by blast
  have "search_from release_version_pattern None text = Some X"
  proof (rule search_from_first [OF t])
    show "release_version_pattern (last_opt None pre) rest = Some X"
      using h by (simp only: release_pattern_iff)
    show "\<forall>pre' rest'. text = pre' @ rest' \<and> length pre' < length pre
            \<longrightarrow> release_version_pattern (last_opt None pre') rest' = None"
      using e by (simp only: pattern_None_iff release_pattern_iff) blast
  qed
  then show "re_search release_version_pattern text = Some X" by (simp add: re_search_def)
next
  assume "re_search release_version_pattern text = Some X"
  then have "search_from release_version_pattern None text = Some X" by (simp add: re_search_def)
  from search_from_SomeD [OF this] obtain pre rest where
    t: "text = pre @ rest" and h: "release_version_pattern (last_opt None pre) rest = Some X"
    and e: "\<forall>pre' rest'. text = pre' @ rest' \<and> length pre' < length pre
              \<longrightarrow> release_version_pattern (last_opt None pre') rest' = None"
    by blast
  from e have "\<forall>pre' rest' Y. text = pre' @ rest' \<and> length pre' < length pre
                 \<longrightarrow> \<not> assignment_here False pre' rest' Y"
    by (simp only: pattern_None_iff release_pattern_iff) blast
  then show "first_assignment False text X"
    unfolding first_assignment_def using t h release_pattern_iff by blast
qed

lemma first_assignment_deb_iff:
  "first_assignment True text X \<longleftrightarrow> re_search deb_version_pattern text = Some X"
proof
  assume "first_assignment True text X"
  then obtain pre rest where t: "text = pre @ rest" and h: "assignment_here True pre rest X"
    and e: "\<forall>pre' rest' Y. text = pre' @ rest' \<and> length pre' < length pre
              \<longrightarrow> \<not> assignment_here True pre' rest' Y"
    unfolding first_assignment_def by blast
  have "search_from deb_version_pattern None text = Some X"
  proof (rule search_from_first [OF t])
    show "deb_version_pattern (last_opt None pre) rest = Some X"
      using h by (simp only: deb_pattern_iff)
    show "\<forall>pre' rest'. text = pre' @ rest' \<and> length pre' < length pre
            \<longrightarrow> deb_version_pattern (last_opt None pre') rest' = None"
      using e by (simp only: pattern_None_iff deb_pattern_iff) blast
  qed
  then show "re_search deb_version_pattern text = Some X" by (simp add: re_search_def)
next
  assume "re_search deb_version_pattern text = Some X"
  then have "search_from deb_version_pattern None text = Some X" by (simp add: re_search_def)
  from search_from_SomeD [OF this] obtain pre rest where
    t: "text = pre @ rest" and h: "deb_version_pattern (last_opt None pre) rest = Some X"
    and e: "\<forall>pre' rest'. text = pre' @ rest' \<and> length pre' < length pre
              \<longrightarrow> deb_version_pattern (last_opt None pre') rest' = None"
    by blast
  from e have "\<forall>pre' rest' Y. text = pre' @ rest' \<and> length pre' < length pre
                 \<longrightarrow> \<not> assignment_here True pre' rest' Y"
    by (simp only: pattern_None_iff deb_pattern_iff) blast
  then show "first_assignment True text X"
    unfolding first_assignment_def using t h deb_pattern_iff by blast
qed

lemma has_assignment_release_iff:
  "has_assignment False text \<longleftrightarrow> re_search release_version_pattern text \<noteq> None"
proof
  assume "has_assignment False text"
  then obtain pre rest X where t: "text = pre @ rest" and h: "assignment_here False pre rest X"
    unfolding has_assignment_def by blast
  from h have "release_version_pattern (last_opt None pre) rest = Some X"
    by (simp only: release_pattern_iff)
  then have "\<not> (\<forall>pre rest. text = pre @ rest \<longrightarrow> release_version_pattern (last_opt None pre) rest = None)"
    using t by auto
  then have "search_from release_version_pattern None text \<noteq> None"
    using search_from_None_iff [of release_version_pattern None "text"] by blast
  then show "re_search release_version_pattern text \<noteq> None"
    by (simp add: re_search_def)
next
  assume "re_search release_version_pattern text \<noteq> None"
  then obtain X where "search_from release_version_pattern None text = Some X"
    by (auto simp: re_search_def)
  from search_from_SomeD [OF this] obtain pre rest where
    "text = pre @ rest" "release_version_pattern (last_opt None pre) rest = Some X"
    by blast
  then show "has_assignment False text"
    unfolding has_assignment_def using release_pattern_iff by blast
qed

lemma has_assignment_deb_iff:
  "has_assignment True text \<longleftrightarrow> re_search deb_version_pattern text \<noteq> None"
proof
  assume "has_assignment True text"
  then obtain pre rest X where t: "text = pre @ rest" and h: "assignment_here True pre rest X"
    unfolding has_assignment_def by blast
  from h have "deb_version_pattern (last_opt None pre) rest = Some X"
    by (simp only: deb_pattern_iff)
  then have "\<not> (\<forall>pre rest. text = pre @ rest \<longrightarrow> deb_version_pattern (last_opt None pre) rest = None)"
    using t by auto
  then have "search_from deb_version_pattern None text \<noteq> None"
    using search_from_None_iff [of deb_version_pattern None "text"] by blast
  then show "re_search deb_version_pattern text \<noteq> None"
    by (simp add: re_search_def)
next
  assume "re_search deb_version_pattern text \<noteq> None"
  then obtain X where "search_from deb_version_pattern None text = Some X"
    by (auto simp: re_search_def)
  from search_from_SomeD [OF this] obtain pre rest where
    "text = pre @ rest" "deb_version_pattern (last_opt None pre) rest = Some X"
    by blast
  then show "has_assignment True text"
    unfolding has_assignment_def using deb_pattern_iff by blast
qed

section \<open>VersionResolver: the first assignment, trimmed, or nothing\<close>

text \<open>
  C4 does not hold for every text that contains \<open>version = "X"\<close>: the value ends at the
  next quote character of either kind, and the closing quote need not be the opening one.
  A double-quoted value with an apostrophe is cut at the apostrophe, and a text whose only
  candidate opens with a double quote and closes with a single one is resolved instead of
  giving \<open>None\<close>. Both resolvers behave so.
\<close>

theorem version_resolver_quotes_counterexample:
  "read_version_from_setup (Some ''setup(version = \"it's\")'') = Some ''it''
   \<and> read_project_version (Some ''setup(version = \"it's\")'') = Some ''it''
   \<and> read_version_from_setup (Some ''setup(version = \"1.0', name = 'kport\")'') = Some ''1.0''
   \<and> read_project_version (Some ''setup(version = \"1.0', name = 'kport\")'') = Some ''1.0''"
  by code_simp

text \<open>
  C4, as the code has it. An assignment is the keyword \<open>version\<close> (case-sensitive),
  optional whitespace, \<open>=\<close>, optional whitespace, a quote character of either kind, a
  non-empty value \<open>X\<close> without any quote character, and a quote character of either kind.
  The resolver of deb\_publish.py returns \<open>X\<close> trimmed for the first assignment whose
  keyword starts at a word boundary; the resolver of release.py returns the same when that
  assignment is also the first one regardless of word boundaries. Whatever \<open>X\<close> is, no
  check for a semantic version is made. For a text without any assignment, and when the
  metadata file is missing, both return \<open>None\<close>; the result is always a value, never an
  exception.
\<close>

theorem version_resolver_first_assignment:
  "(first_assignment True text X \<longrightarrow> read_project_version (Some text) = Some (strip X))
   \<and> (first_assignment True text X \<and> first_assignment False text X
        \<longrightarrow> read_version_from_setup (Some text) = Some (strip X))
   \<and> (\<not> has_assignment True text \<longrightarrow> read_project_version (Some text) = None)
   \<and> (\<not> has_assignment False text \<longrightarrow> read_version_from_setup (Some text) = None)
   \<and> read_version_from_setup None = None
   \<and> read_project_version None = None"
  by (simp add: first_assignment_release_iff first_assignment_deb_iff
      has_assignment_release_iff has_assignment_deb_iff
      read_version_from_setup_def read_project_version_def)

theorem version_resolver_first_assignment_witness:
  "first_assignment True ''setup(name='kport', version = \" not a version \", zip_safe=False)'' '' not a version ''
   \<and> first_assignment False ''setup(name='kport', version = \" not a version \", zip_safe=False)'' '' not a version ''
   \<and> read_project_version (Some ''setup(name='kport', version = \" not a version \", zip_safe=False)'') = Some ''not a version''
   \<and> read_version_from_setup (Some ''setup(name='kport', version = \" not a version \", zip_safe=False)'') = Some ''not a version''
   \<and> \<not> has_assignment False ''Version = \"1.0\"; version == '2'; version = \"\"; version = '3''
   \<and> read_version_from_setup (Some ''Version = \"1.0\"; version == '2'; version = \"\"; version = '3'') = None
   \<and> \<not> has_assignment True ''Version = \"1.0\"; version == '2'; version = \"\"; version = '3''
   \<and> read_project_version (Some ''Version = \"1.0\"; version == '2'; version = \"\"; version = '3'') = None"
proof -
  have 1: "first_assignment True ''setup(name='kport', version = \" not a version \", zip_safe=False)'' '' not a version ''"
    unfolding first_assignment_deb_iff by code_simp
  have 2: "first_assignment False ''setup(name='kport', version = \" not a version \", zip_safe=False)'' '' not a version ''"
    unfolding first_assignment_release_iff by code_simp
  have 3: "\<not> has_assignment False ''Version = \"1.0\"; version == '2'; version = \"\"; version = '3''"
    unfolding has_assignment_release_iff by code_simp
  have 4: "\<not> has_assignment True ''Version = \"1.0\"; version == '2'; version = \"\"; version = '3''"
    unfolding has_assignment_deb_iff by code_simp
  have s1: "strip '' not a version '' = ''not a version''" by code_simp
  show ?thesis
    using 1 2 3 4
      version_resolver_first_assignment [of "''setup(name='kport', version = \" not a version \", zip_safe=False)''" "'' not a version ''"]
      version_resolver_first_assignment [of "''Version = \"1.0\"; version == '2'; version = \"\"; version = '3''" "[]"]
    by (simp only: s1 simp_thms)
qed

lemma re_search_first_match:
  assumes "\<And>prev s x. m prev s = Some x \<longleftrightarrow> H s x"
  shows "re_search m text = Some x \<longleftrightarrow> first_match H text x"
proof
  assume "re_search m text = Some x"
  then have "search_from m None text = Some x" by (simp add: re_search_def)
  from search_from_SomeD [OF this] obtain pre rest where
    t: "text = pre @ rest" and h: "m (last_opt None pre) rest = Some x"
    and e: "\<forall>pre' rest'. text = pre' @ rest' \<and> length pre' < length pre
              \<longrightarrow> m (last_opt None pre') rest' = None"
    by blast
  have "\<forall>pre' rest' y. text = pre' @ rest' \<and> length pre' < length pre \<longrightarrow> \<not> H rest' y"
  proof (intro allI impI)
    fix pre' rest' y assume "text = pre' @ rest' \<and> length pre' < length pre"
    then have "m (last_opt None pre') rest' = None" using e by blast
    then show "\<not> H rest' y" using assms [of "last_opt None pre'" rest' y] by simp
  qed
  then show "first_match H text x"
    unfolding first_match_def using t h assms by blast
next
  assume "first_match H text x"
  then obtain pre rest where t: "text = pre @ rest" and h: "H rest x"
    and e: "\<forall>pre' rest' y. text = pre' @ rest' \<and> length pre' < length pre \<longrightarrow> \<not> H rest' y"
    unfolding first_match_def by blast
  have "search_from m None text = Some x"
  proof (rule search_from_first [OF t])
    show "m (last_opt None pre) rest = Some x" using h assms by blast
    show "\<forall>pre' rest'. text = pre' @ rest' \<and> length pre' < length pre
            \<longrightarrow> m (last_opt None pre') rest' = None"
    proof (intro allI impI)
      fix pre' rest' assume a: "text = pre' @ rest' \<and> length pre' < length pre"
      show "m (last_opt None pre') rest' = None"
      proof (cases "m (last_opt None pre') rest'")
        case None then show ?thesis .
      next
        case (Some y)
        then have "H rest' y" using assms by blast
        then show ?thesis using e a by blast
      qed
    qed
  qed
  then show "re_search m text = Some x" by (simp add: re_search_def)
qed

lemma re_search_some_match:
  assumes "\<And>prev s x. m prev s = Some x \<longleftrightarrow> H s x"
  shows "re_search m text \<noteq> None \<longleftrightarrow> some_match H text"
proof
  assume "re_search m text \<noteq> None"
  then obtain x where "search_from m None text = Some x" by (auto simp: re_search_def)
  from search_from_SomeD [OF this] obtain pre rest where
    "text = pre @ rest" "m (last_opt None pre) rest = Some x" by blast
  then show "some_match H text" unfolding some_match_def using assms by blast
next
  assume "some_match H text"
  then obtain pre rest x where t: "text = pre @ rest" and h: "H rest x"
    unfolding some_match_def by blast
  from h have "m (last_opt None pre) rest = Some x" using assms by blast
  then have "\<not> (\<forall>pre rest. text = pre @ rest \<longrightarrow> m (last_opt None pre) rest = None)"
    using t by auto
  then have "search_from m None text \<noteq> None"
    using search_from_None_iff [of m None "text"] by blast
  then show "re_search m text \<noteq> None" by (simp add: re_search_def)
qed

lemma strip_prefix_ci_append:
  "map lower k = p \<Longrightarrow> strip_prefix_ci p (k @ r) = Some r"
proof (induction k arbitrary: p)
  case Nil
  then show ?case by simp
next
  case (Cons c k)
  then obtain ps where p: "p = lower c # ps" and ps: "map lower k = ps" by auto
  have "strip_prefix_ci ps (k @ r) = Some r" using Cons.IH [OF ps] .
  then show ?case unfolding p by simp
qed

lemma strip_prefix_ci_SomeD:
  "strip_prefix_ci p s = Some r \<Longrightarrow> \<exists>k. s = k @ r \<and> map lower k = p"
proof (induction p arbitrary: s)
  case Nil
  then show ?case by simp
next
  case (Cons a ps)
  show ?case
  proof (cases s)
    case Nil
    then show ?thesis using Cons.prems by simp
  next
    case (Cons c cs)
    have a: "a = lower c" and rec: "strip_prefix_ci ps cs = Some r"
      using Cons.prems unfolding Cons by (simp_all split: if_splits)
    from Cons.IH [OF rec] obtain k where k: "cs = k @ r" "map lower k = ps" by blast
    have "s = (c # k) @ r \<and> map lower (c # k) = a # ps"
      unfolding Cons using k a by simp
    then show ?thesis by (rule exI [of _ "c # k"])
  qed
qed

lemma strip_prefix_ci_Some_iff:
  "strip_prefix_ci p s = Some r \<longleftrightarrow> (\<exists>k. s = k @ r \<and> map lower k = p)"
proof
  assume "strip_prefix_ci p s = Some r"
  then show "\<exists>k. s = k @ r \<and> map lower k = p" by (rule strip_prefix_ci_SomeD)
next
  assume "\<exists>k. s = k @ r \<and> map lower k = p"
  then obtain k where "s = k @ r" "map lower k = p" by (elim exE conjE)
  then show "strip_prefix_ci p s = Some r" by (simp add: strip_prefix_ci_append)
qed

lemma takeWhile_run_end:
  assumes "\<forall>x\<in>set ws. P x" "rest = [] \<or> \<not> P (hd rest)"
  shows "takeWhile P (ws @ rest) = ws"
  using assms by (cases rest) (auto simp: takeWhile_run)

lemma dropWhile_run_end:
  assumes "\<forall>x\<in>set ws. P x" "rest = [] \<or> \<not> P (hd rest)"
  shows "dropWhile P (ws @ rest) = rest"
  using assms by (cases rest) (auto simp: dropWhile_run)

lemma lower_v: "lower c = CHR ''v'' \<Longrightarrow> c = CHR ''v'' \<or> c = CHR ''V''"
  by (simp add: lower_def split: if_splits)

lemma digit_not_space: "is_digit c \<Longrightarrow> \<not> is_space c"
  by (auto simp: is_digit_def is_space_def)

lemma run_split:
  "s = takeWhile P s @ dropWhile P s \<and> (\<forall>x\<in>set (takeWhile P s). P x)
     \<and> (dropWhile P s = [] \<or> \<not> P (hd (dropWhile P s)))"
proof -
  have "dropWhile P s = [] \<or> \<not> P (hd (dropWhile P s))"
    using hd_dropWhile [of P s] by blast
  moreover have "\<forall>x\<in>set (takeWhile P s). P x" by (auto dest: set_takeWhileD)
  ultimately show ?thesis by simp
qed

lemma match_debhelper_sound:
  assumes "match_debhelper s = Some d"
  shows "debhelper_version_here s d"
proof -
  from assms obtain r1 where r1: "strip_prefix_ci ''debhelper'' s = Some r1"
    by (cases "strip_prefix_ci ''debhelper'' s") (simp_all add: match_debhelper_def)
  have w1: "takeWhile is_space r1 \<noteq> []"
    using assms unfolding match_debhelper_def r1 by (simp split: if_splits)
  from assms w1 obtain r2 where r2: "strip_prefix_ci ''version'' (dropWhile is_space r1) = Some r2"
    unfolding match_debhelper_def r1
    by (cases "strip_prefix_ci ''version'' (dropWhile is_space r1)") simp_all
  have w2: "takeWhile is_space r2 \<noteq> []"
    using assms w1 unfolding match_debhelper_def r1 by (simp add: r2 split: if_splits)
  have d: "d = takeWhile is_digit (dropWhile is_space r2)" "d \<noteq> []"
    using assms w1 w2 unfolding match_debhelper_def r1
    by (simp_all add: r2 Let_def split: if_splits)
  from strip_prefix_ci_SomeD [OF r1] obtain k1 where k1: "s = k1 @ r1" "map lower k1 = ''debhelper''"
    by (elim exE conjE)
  from strip_prefix_ci_SomeD [OF r2] obtain k2 where k2: "dropWhile is_space r1 = k2 @ r2" "map lower k2 = ''version''"
    by (elim exE conjE)
  define ws1 where "ws1 = takeWhile is_space r1"
  define ws2 where "ws2 = takeWhile is_space r2"
  define post where "post = dropWhile is_digit (dropWhile is_space r2)"
  have e1: "r1 = ws1 @ k2 @ r2" and s1: "\<forall>c\<in>set ws1. is_space c"
    using run_split [of r1 is_space] k2 by (simp_all add: ws1_def)
  have e2: "r2 = ws2 @ dropWhile is_space r2" and s2: "\<forall>c\<in>set ws2. is_space c"
    using run_split [of r2 is_space] by (simp_all add: ws2_def)
  have e3: "dropWhile is_space r2 = d @ post" and s3: "\<forall>c\<in>set d. is_digit c"
    and s4: "post = [] \<or> \<not> is_digit (hd post)"
    using run_split [of "dropWhile is_space r2" is_digit] by (simp_all add: d post_def)
  have "s = k1 @ ws1 @ k2 @ ws2 @ d @ post"
    using k1(1) e1 e2 e3 by simp
  then have "s = k1 @ ws1 @ k2 @ ws2 @ d @ post
        \<and> map lower k1 = ''debhelper'' \<and> ws1 \<noteq> [] \<and> (\<forall>c\<in>set ws1. is_space c)
        \<and> map lower k2 = ''version'' \<and> ws2 \<noteq> [] \<and> (\<forall>c\<in>set ws2. is_space c)
        \<and> d \<noteq> [] \<and> (\<forall>c\<in>set d. is_digit c) \<and> (post = [] \<or> \<not> is_digit (hd post))"
    using k1(2) k2(2) w1 w2 s1 s2 s3 s4 d(2) by (simp add: ws1_def ws2_def)
  then show ?thesis unfolding debhelper_version_here_def by (intro exI)
qed

lemma match_debhelper_complete:
  assumes "debhelper_version_here s d"
  shows "match_debhelper s = Some d"
proof -
  from assms obtain k1 ws1 k2 ws2 post where
    s: "s = k1 @ ws1 @ k2 @ ws2 @ d @ post"
    and k1: "map lower k1 = ''debhelper''" and ws1: "ws1 \<noteq> []" "\<forall>c\<in>set ws1. is_space c"
    and k2: "map lower k2 = ''version''" and ws2: "ws2 \<noteq> []" "\<forall>c\<in>set ws2. is_space c"
    and d: "d \<noteq> []" "\<forall>c\<in>set d. is_digit c" and post: "post = [] \<or> \<not> is_digit (hd post)"
    unfolding debhelper_version_here_def by (elim exE conjE)
  have 1: "strip_prefix_ci ''debhelper'' s = Some (ws1 @ k2 @ ws2 @ d @ post)"
    unfolding s using k1 by (rule strip_prefix_ci_append)
  from k2 obtain v k2' where k2c: "k2 = v # k2'" and v: "lower v = CHR ''v''"
    by (cases k2) auto
  have nv: "\<not> is_space v" using lower_v [OF v] by (auto simp: is_space_def code_def)
  have 2: "takeWhile is_space (ws1 @ k2 @ ws2 @ d @ post) = ws1"
    unfolding k2c using ws1(2) nv by (simp add: takeWhile_run)
  have 3: "dropWhile is_space (ws1 @ k2 @ ws2 @ d @ post) = k2 @ ws2 @ d @ post"
    unfolding k2c using ws1(2) nv by (simp add: dropWhile_run)
  have 4: "strip_prefix_ci ''version'' (k2 @ ws2 @ d @ post) = Some (ws2 @ d @ post)"
    using k2 by (rule strip_prefix_ci_append)
  from d obtain d0 d' where dc: "d = d0 # d'" and d0: "is_digit d0" by (cases d) auto
  have nd: "\<not> is_space d0" using d0 by (rule digit_not_space)
  have 5: "takeWhile is_space (ws2 @ d @ post) = ws2"
    unfolding dc using ws2(2) nd by (simp add: takeWhile_run)
  have 6: "dropWhile is_space (ws2 @ d @ post) = d @ post"
    unfolding dc using ws2(2) nd by (simp add: dropWhile_run)
  have 7: "takeWhile is_digit (d @ post) = d"
    using d(2) post by (rule takeWhile_run_end)
  show ?thesis
    unfolding match_debhelper_def 1 by (simp add: 2 3 4 5 6 7 ws1 ws2 d)
qed

lemma debhelper_pattern_iff:
  "debhelper_pattern prev s = Some d \<longleftrightarrow> debhelper_version_here s d"
  unfolding debhelper_pattern_def using match_debhelper_sound match_debhelper_complete by blast

lemma reported_major_iff:
  "reported_major out d \<longleftrightarrow> re_search debhelper_pattern out = Some d"
  unfolding reported_major_def
  using re_search_first_match [of debhelper_pattern debhelper_version_here out d, OF debhelper_pattern_iff]
  by simp

lemma reports_version_iff:
  "reports_version out \<longleftrightarrow> re_search debhelper_pattern out \<noteq> None"
  unfolding reports_version_def
  using re_search_some_match [of debhelper_pattern debhelper_version_here out, OF debhelper_pattern_iff]
  by simp

lemma compat_level_ge_12: "12 \<le> debhelper_compat_level ex helper"
  by (auto simp: debhelper_compat_level_def split: sum.split option.split)

section \<open>Compatibility level and the Build-Depends floor\<close>

text \<open>
  C5. Whatever \<open>dh --version\<close> prints, the compatibility level computed for the
  skeleton is at least 12. It is exactly 12 when \<open>dh\<close> is absent, when running it
  fails (it cannot be started or exits non-zero), and when its output does not report a
  version; when the output reports one, the level is the maximum of 12 and the leading
  integer of the first reported version.
\<close>

theorem compat_level_floor:
  "12 \<le> debhelper_compat_level ex helper
   \<and> (\<not> ex \<longrightarrow> debhelper_compat_level ex helper = 12)
   \<and> (check_output helper = Inl e \<longrightarrow> debhelper_compat_level ex helper = 12)
   \<and> (check_output helper = Inr out \<and> \<not> reports_version out \<longrightarrow> debhelper_compat_level ex helper = 12)
   \<and> (ex \<and> check_output helper = Inr out \<and> reported_major out d
        \<longrightarrow> debhelper_compat_level ex helper = max 12 (int_of_digits d))"
proof (intro conjI impI)
  show "12 \<le> debhelper_compat_level ex helper" by (rule compat_level_ge_12)
next
  assume "\<not> ex"
  then show "debhelper_compat_level ex helper = 12" by (simp add: debhelper_compat_level_def)
next
  assume "check_output helper = Inl e"
  then show "debhelper_compat_level ex helper = 12" by (simp add: debhelper_compat_level_def)
next
  assume "check_output helper = Inr out \<and> \<not> reports_version out"
  then show "debhelper_compat_level ex helper = 12"
    by (simp add: debhelper_compat_level_def reports_version_iff)
next
  assume "ex \<and> check_output helper = Inr out \<and> reported_major out d"
  then show "debhelper_compat_level ex helper = max 12 (int_of_digits d)"
    by (simp add: debhelper_compat_level_def reported_major_iff)
qed

theorem compat_level_floor_witness:
  "check_output (Completed 0 ''dh: DebHelper  Version 13.6ubuntu1'' []) = Inr ''dh: DebHelper  Version 13.6ubuntu1''
   \<and> reported_major ''dh: DebHelper  Version 13.6ubuntu1'' ''13''
   \<and> debhelper_compat_level True (Completed 0 ''dh: DebHelper  Version 13.6ubuntu1'' []) = 13
   \<and> reported_major ''debhelper version 9'' ''9''
   \<and> debhelper_compat_level True (Completed 0 ''debhelper version 9'' []) = 12
   \<and> \<not> reports_version ''dh: unknown option''
   \<and> debhelper_compat_level True (Completed 0 ''dh: unknown option'' []) = 12
   \<and> check_output (Completed 2 ''debhelper version 99'' []) = Inl (CalledProcessError 2)
   \<and> debhelper_compat_level True (Completed 2 ''debhelper version 99'' []) = 12
   \<and> debhelper_compat_level False (Completed 0 ''debhelper version 99'' []) = 12"
proof -
  have 1: "reported_major ''dh: DebHelper  Version 13.6ubuntu1'' ''13''"
    unfolding reported_major_iff by code_simp
  have 2: "reported_major ''debhelper version 9'' ''9''"
    unfolding reported_major_iff by code_simp
  have 3: "\<not> reports_version ''dh: unknown option''"
    unfolding reports_version_iff by code_simp
  have c1: "check_output (Completed 0 ''dh: DebHelper  Version 13.6ubuntu1'' []) = Inr ''dh: DebHelper  Version 13.6ubuntu1''"
    by (simp add: check_output_def)
  have c2: "check_output (Completed 0 ''debhelper version 9'' []) = Inr ''debhelper version 9''"
    by (simp add: check_output_def)
  have c3: "check_output (Completed 0 ''dh: unknown option'' []) = Inr ''dh: unknown option''"
    by (simp add: check_output_def)
  have c4: "check_output (Completed 2 ''debhelper version 99'' []) = Inl (CalledProcessError 2)"
    by (simp add: check_output_def)
  have i1: "max 12 (int_of_digits ''13'') = 13" by code_simp
  have i2: "max 12 (int_of_digits ''9'') = 12" by code_simp
  show ?thesis
    using 1 2 3 c1 c2 c3 c4
      compat_level_floor [of True "Completed 0 ''dh: DebHelper  Version 13.6ubuntu1'' []" undefined
         "''dh: DebHelper  Version 13.6ubuntu1''" "''13''"]
      compat_level_floor [of True "Completed 0 ''debhelper version 9'' []" undefined
         "''debhelper version 9''" "''9''"]
      compat_level_floor [of True "Completed 0 ''dh: unknown option'' []" undefined
         "''dh: unknown option''" "[]"]
      compat_level_floor [of True "Completed 2 ''debhelper version 99'' []" "CalledProcessError 2" "[]" "[]"]
      compat_level_floor [of False "Completed 0 ''debhelper version 99'' []" undefined "[]" "[]"]
    by (simp only: i1 i2 simp_thms)
qed

section \<open>The control file: dedent and the Build-Depends line\<close>

lemma split_on_not_Nil: "split_on d s \<noteq> []"
  by (induction s) (auto split: list.splits)

lemma split_on_append_sep: "split_on d (a @ d # r) = split_on d a @ split_on d r"
proof (induction a)
  case Nil
  then show ?case by simp
next
  case (Cons c cs)
  obtain w ws where w: "split_on d cs = w # ws"
    using split_on_not_Nil [of d cs] by (cases "split_on d cs") auto
  show ?case using Cons w by simp
qed

lemma split_on_no_sep: "d \<notin> set l \<Longrightarrow> split_on d l = [l]"
  by (induction l) auto

lemma split_on_lines_no_sep: "l \<in> set (split_on d s) \<Longrightarrow> d \<notin> set l"
proof (induction s arbitrary: l)
  case Nil
  then show ?case by simp
next
  case (Cons c cs)
  obtain w ws where w: "split_on d cs = w # ws"
    using split_on_not_Nil [of d cs] by (cases "split_on d cs") auto
  have iw: "d \<notin> set w" and iws: "\<forall>x\<in>set ws. d \<notin> set x"
    using Cons.IH w by auto
  show ?case
  proof (cases "c = d")
    case True
    then have "l = [] \<or> l \<in> set (split_on d cs)" using Cons.prems by simp
    then show ?thesis using Cons.IH by auto
  next
    case False
    then have "l = c # w \<or> l \<in> set ws" using Cons.prems w by simp
    then show ?thesis using False iw iws by auto
  qed
qed

lemma split_join_lines:
  "ls \<noteq> [] \<Longrightarrow> \<forall>l\<in>set ls. nl \<notin> set l \<Longrightarrow> split_on nl (join_lines ls) = ls"
proof (induction ls rule: join_lines.induct)
  case 1
  then show ?case by simp
next
  case (2 l)
  then show ?case by (simp add: split_on_no_sep)
next
  case (3 l v va)
  have "split_on nl (join_lines (l # v # va)) = split_on nl l @ split_on nl (join_lines (v # va))"
    using split_on_append_sep [of nl l "join_lines (v # va)"] by simp
  also have "\<dots> = [l] @ (v # va)"
    using 3 by (simp add: split_on_no_sep)
  finally show ?case by simp
qed

lemma common_prefix_left: "\<exists>r. a = common_prefix a b @ r"
  by (induction a b rule: common_prefix.induct) auto

lemma foldl_common_prefix_init: "\<exists>r. i = foldl common_prefix i rest @ r"
proof (induction rest arbitrary: i)
  case Nil
  then show ?case by simp
next
  case (Cons x xs)
  obtain r1 where r1: "i = common_prefix i x @ r1" using common_prefix_left by blast
  obtain r2 where r2: "common_prefix i x = foldl common_prefix (common_prefix i x) xs @ r2"
    using Cons.IH by blast
  have "i = foldl common_prefix i (x # xs) @ (r2 @ r1)"
    using r1 r2 by (metis append.assoc foldl_Cons)
  then show ?case by (rule exI)
qed

lemma remove_margin_drop:
  assumes "\<forall>c\<in>set m. is_indent c"
  shows "dropWhile is_indent (remove_margin m l) = dropWhile is_indent l"
proof (cases "strip_prefix m l")
  case None
  then show ?thesis by (simp add: remove_margin_def)
next
  case (Some r)
  then have "l = m @ r" by (simp only: strip_prefix_Some_iff)
  then show ?thesis using assms Some by (simp add: remove_margin_def dropWhile_append2)
qed

lemma blank_out_drop: "dropWhile is_indent (blank_out l) = dropWhile is_indent l"
proof (cases "l \<noteq> [] \<and> list_all is_indent l")
  case True
  then have "\<forall>x\<in>set l. is_indent x" by (simp add: list_all_iff)
  then have e: "dropWhile is_indent l = []" by simp
  have "blank_out l = []" using True by (simp add: blank_out_def)
  then show ?thesis by (simp only: e dropWhile.simps)
next
  case False
  then have "blank_out l = l" unfolding blank_out_def by (simp only: if_False)
  then show ?thesis by (simp only:)
qed

lemma remove_margin_set: "set (remove_margin m l) \<subseteq> set l"
proof (cases "strip_prefix m l")
  case None
  then show ?thesis by (simp add: remove_margin_def)
next
  case (Some r)
  then have "l = m @ r" by (simp only: strip_prefix_Some_iff)
  then show ?thesis using Some by (auto simp: remove_margin_def)
qed

lemma blank_out_set: "set (blank_out l) \<subseteq> set l"
  by (simp add: blank_out_def)

lemma dedent_lines_drop:
  "map (dropWhile is_indent) (dedent_lines ls) = map (dropWhile is_indent) ls"
proof -
  let ?bs = "map blank_out ls"
  let ?indents = "[takeWhile is_indent l. l \<leftarrow> ?bs, dropWhile is_indent l \<noteq> []]"
  have b: "map (dropWhile is_indent) ?bs = map (dropWhile is_indent) ls"
    by (simp add: blank_out_drop)
  show ?thesis
  proof (cases ?indents)
    case Nil
    have "dedent_lines ls = ?bs"
      unfolding dedent_lines_def Let_def Nil by (simp only: list.case)
    then show ?thesis using b by simp
  next
    case (Cons i rest)
    then have "i \<in> set ?indents" by simp
    then obtain l where i: "i = takeWhile is_indent l" by auto
    obtain r where r: "i = foldl common_prefix i rest @ r"
      using foldl_common_prefix_init by blast
    have "\<forall>c\<in>set i. is_indent c" unfolding i by (auto dest: set_takeWhileD)
    then have m: "\<forall>c\<in>set (foldl common_prefix i rest). is_indent c"
      using r by (metis Un_iff set_append)
    have d: "dedent_lines ls
        = (if foldl common_prefix i rest = [] then ?bs
           else map (remove_margin (foldl common_prefix i rest)) ?bs)"
      unfolding dedent_lines_def Let_def Cons by (simp only: list.case)
    have "map (dropWhile is_indent) (map (remove_margin (foldl common_prefix i rest)) ?bs)
        = map (dropWhile is_indent) ?bs"
      using remove_margin_drop [OF m] by simp
    then show ?thesis unfolding d using b by simp
  qed
qed

lemma dedent_lines_no_nl:
  assumes "\<forall>l\<in>set ls. nl \<notin> set l"
  shows "\<forall>l\<in>set (dedent_lines ls). nl \<notin> set l"
proof -
  have b: "\<forall>l\<in>set (map blank_out ls). nl \<notin> set l"
    using assms blank_out_set by fastforce
  then have "\<And>m. \<forall>l\<in>set (map (remove_margin m) (map blank_out ls)). nl \<notin> set l"
    using remove_margin_set by fastforce
  then show ?thesis using b
    by (simp add: dedent_lines_def Let_def split: list.split)
qed

lemma dedent_lines_length: "length (dedent_lines ls) = length ls"
  by (simp add: dedent_lines_def Let_def split: list.split)

lemma dedent_split: "split_on nl (dedent text) = dedent_lines (split_on nl text)"
proof -
  have "\<forall>l\<in>set (split_on nl text). nl \<notin> set l"
    using split_on_lines_no_sep by blast
  then have 1: "\<forall>l\<in>set (dedent_lines (split_on nl text)). nl \<notin> set l"
    by (rule dedent_lines_no_nl)
  have "length (dedent_lines (split_on nl text)) \<noteq> 0"
    using split_on_not_Nil [of nl "text"] by (simp add: dedent_lines_length)
  then have 2: "dedent_lines (split_on nl text) \<noteq> []" by simp
  show ?thesis unfolding dedent_def using split_join_lines [OF 2 1] .
qed

lemma dedent_keeps_lines:
  "map (dropWhile is_indent) (split_on nl (dedent text))
     = map (dropWhile is_indent) (split_on nl text)"
  by (simp only: dedent_split dedent_lines_drop)

lemma str_int_12: "str_int 12 = ''12''"
  by code_simp

lemma build_depends_line_in_template:
  "''        Build-Depends: debhelper (>= 12)'' \<in> set (split_on nl (control_template n m 12))"
proof -
  let ?bd = "''        Build-Depends: debhelper (>= 12)''"
  let ?a = "text_lines [''        Source: kport'', ''        Section: utils'',
                        ''        Priority: optional'']
            @ ''        Maintainer: '' @ n @ '' <'' @ m @ ''>''"
  let ?b = "text_lines
       [''        Standards-Version: 4.5.0'',
        ''        Homepage: https://github.com/farman20ali/port-killer'',
        ''        Rules-Requires-Root: no'',
        [],
        ''        Package: kport'',
        ''        Architecture: all'',
        ''        Depends: ${misc:Depends}, python3, python3-psutil'',
        ''        Description: Cross-platform port inspector and killer'',
        ''         kport helps you list, inspect, and kill processes using ports.'',
        ''         It can also show Docker port mappings when Docker is installed.'']
     @ ''        ''"
  have t: "control_template n m 12 = ?a @ nl # (?bd @ nl # ?b)"
    by (simp add: control_template_def text_lines_def str_int_12)
  have "nl \<notin> set ?bd" by (simp add: nl_def)
  then have one: "split_on nl ?bd = [?bd]" by (rule split_on_no_sep)
  have "split_on nl (control_template n m 12) = split_on nl ?a @ [?bd] @ split_on nl ?b"
    unfolding t split_on_append_sep one by (rule refl)
  then show ?thesis by simp
qed

lemma build_depends_line_rendered:
  "''Build-Depends: debhelper (>= 12)''
     \<in> set (map (dropWhile is_indent) (split_on nl (dedent (control_template n m 12))))"
proof -
  have e: "dropWhile is_indent ''        Build-Depends: debhelper (>= 12)''
      = ''Build-Depends: debhelper (>= 12)''"
    by (simp add: is_indent_def)
  have "dropWhile is_indent ''        Build-Depends: debhelper (>= 12)''
      \<in> dropWhile is_indent ` set (split_on nl (control_template n m 12))"
    using build_depends_line_in_template [of n m] by (rule imageI)
  then have "''Build-Depends: debhelper (>= 12)''
      \<in> set (map (dropWhile is_indent) (split_on nl (control_template n m 12)))"
    by (simp only: e set_map)
  then show ?thesis by (simp only: dedent_keeps_lines)
qed

text \<open>
  C10. The Build-Depends floor written into the control file is \<open>min(compat, 12)\<close> with
  \<open>compat = max(12, major)\<close>, hence the constant 12 for every helper and every helper
  output. The control file is the dedented template with 12 interpolated; for every
  environment one of its lines reads, after its indentation,
  \<open>Build-Depends: debhelper (>= 12)\<close>; and the file does not change when the helper
  (present or not, whatever it prints) is replaced.
\<close>

theorem build_depends_floor_is_12:
  "min (debhelper_compat_level ex helper) 12 = 12
   \<and> control (snd (generate_debian_skeleton e))
       = dedent (control_template (fst (maintainer_identity (environ e)))
                   (snd (maintainer_identity (environ e))) 12)
   \<and> ''Build-Depends: debhelper (>= 12)''
       \<in> set (map (dropWhile is_indent)
                (split_on nl (control (snd (generate_debian_skeleton e)))))
   \<and> control (snd (generate_debian_skeleton (e\<lparr>dh_exists := ex, dh_version := helper\<rparr>)))
       = control (snd (generate_debian_skeleton e))
   \<and> str_int 12 = ''12''"
proof -
  have m: "\<And>ex helper. min (debhelper_compat_level ex helper) 12 = 12"
  proof -
    fix ex helper
    have "12 \<le> debhelper_compat_level ex helper" by (rule compat_level_ge_12)
    then show "min (debhelper_compat_level ex helper) 12 = 12" by linarith
  qed
  have c: "\<And>e. control (snd (generate_debian_skeleton e))
       = dedent (control_template (fst (maintainer_identity (environ e)))
                   (snd (maintainer_identity (environ e))) 12)"
    by (simp add: generate_debian_skeleton_def Let_def m split_beta)
  have l: "''Build-Depends: debhelper (>= 12)''
       \<in> set (map (dropWhile is_indent)
                (split_on nl (control (snd (generate_debian_skeleton e)))))"
    unfolding c by (rule build_depends_line_rendered)
  have i: "control (snd (generate_debian_skeleton (e\<lparr>dh_exists := ex, dh_version := helper\<rparr>)))
       = control (snd (generate_debian_skeleton e))"
    unfolding c by simp
  show ?thesis using m c l i str_int_12 by simp
qed

theorem build_depends_floor_is_12_witness:
  "min (debhelper_compat_level (dh_exists example_build_host) (dh_version example_build_host)) 12 = 12
   \<and> compat (snd (generate_debian_skeleton example_build_host)) = ''13'' @ [nl]
   \<and> ''Build-Depends: debhelper (>= 12)''
       \<in> set (split_on nl (control (snd (generate_debian_skeleton example_build_host))))
   \<and> ''Maintainer: Ada Lovelace <ada@example.org>''
       \<in> set (split_on nl (control (snd (generate_debian_skeleton example_build_host))))
   \<and> control (snd (generate_debian_skeleton
                      (example_build_host\<lparr>dh_exists := False, dh_version := NotFound\<rparr>)))
       = control (snd (generate_debian_skeleton example_build_host))"
proof -
  have 1: "compat (snd (generate_debian_skeleton example_build_host)) = ''13'' @ [nl]"
    by code_simp
  have 2: "''Build-Depends: debhelper (>= 12)''
       \<in> set (split_on nl (control (snd (generate_debian_skeleton example_build_host))))"
    by code_simp
  have 3: "''Maintainer: Ada Lovelace <ada@example.org>''
       \<in> set (split_on nl (control (snd (generate_debian_skeleton example_build_host))))"
    by code_simp
  show ?thesis
    using 1 2 3
      build_depends_floor_is_12 [of "dh_exists example_build_host" "dh_version example_build_host"
         example_build_host]
      build_depends_floor_is_12 [of False NotFound example_build_host]
    by simp
qed

section \<open>BuildDependencyChecker: when nothing is extracted\<close>









section \<open>BuildDependencyChecker: what the parser reads after the marker\<close>

text \<open>
  C7. On the documented diagnostic the parser returns the two package names. But what it
  splits is not always the remainder of the marker's line: when only whitespace follows the
  marker on its line, \<open>\s*\<close> runs over the newline and the next line is parsed instead. On
  the text below the marker's line has no remainder, and the parser returns words of the
  following line.
\<close>

theorem parse_unmet_reads_next_line:
  "parse_unmet_build_deps
     ''dpkg-checkbuilddeps: error: Unmet build dependencies: debhelper-compat (= 13), foo''
     = [''debhelper-compat'', ''foo'']
   \<and> parse_unmet_build_deps
       (''dpkg-checkbuilddeps: error: Unmet build dependencies:'' @ [nl]
          @ ''dpkg-checkbuilddeps: error: see, the manual'')
     = [''dpkg-checkbuilddeps'', ''the'']"
  by code_simp

section \<open>PackageBuilder: new artifacts\<close>

lemma copy_loop_names:
  "copy_loop dist ps fs = Ret (copied, fs') \<Longrightarrow> copied = map (\<lambda>p. (dist, path_name p)) ps"
proof (induction ps arbitrary: fs copied fs')
  case Nil
  then show ?case by simp
next
  case (Cons p ps)
  from Cons.prems obtain fs1 where c: "copy2 fs p (dist, path_name p) = Ret fs1"
    by (cases "copy2 fs p (dist, path_name p)") (simp_all add: Let_def)
  from Cons.prems c obtain rest fs2 where r: "copy_loop dist ps fs1 = Ret (rest, fs2)"
    and copied: "copied = (dist, path_name p) # rest"
    by (cases "copy_loop dist ps fs1") (auto simp: Let_def)
  from Cons.IH [OF r] show ?case using copied by simp
qed

lemma copy_new_debs_names:
  assumes "copy_new_debs dist fs parent before = Ret (copied, fs')"
  shows "map path_name copied = [n \<leftarrow> map path_name (glob_deb fs parent). n \<notin> before]"
proof (cases "[p \<leftarrow> glob_deb fs parent. path_name p \<notin> before] = []")
  case True
  then have "copied = []" using assms by (simp add: copy_new_debs_def)
  moreover have "[n \<leftarrow> map path_name (glob_deb fs parent). n \<notin> before]
      = map path_name [p \<leftarrow> glob_deb fs parent. path_name p \<notin> before]"
    by (simp add: filter_map comp_def)
  ultimately show ?thesis using True by simp
next
  case False
  then have "copy_loop dist [p \<leftarrow> glob_deb fs parent. path_name p \<notin> before] fs = Ret (copied, fs')"
    using assms by (simp add: copy_new_debs_def)
  then have "copied = map (\<lambda>p. (dist, path_name p)) [p \<leftarrow> glob_deb fs parent. path_name p \<notin> before]"
    by (rule copy_loop_names)
  then show ?thesis by (simp add: filter_map comp_def path_name_def)
qed

lemma canonical_in: "canonical p ps \<in> set (p # ps)"
  unfolding canonical_def
proof (induction ps arbitrary: p)
  case Nil
  then show ?case by simp
next
  case (Cons q ps)
  show ?case using Cons.IH [of "if key_less q p then q else p"] by auto
qed

text \<open>
  C8. None of the artifacts that \<open>_copy_new_debs\<close> copies and reports has a file name
  from the snapshot taken before the build: the reported names are exactly the names of
  the \<open>*.deb\<close> files of the build's parent directory that are not in the snapshot, in
  listing order. Hence the artifact that \<open>build_deb\<close> returns was not present before the
  build subprocess ran and is present after it.
\<close>

theorem new_debs_exclude_snapshot:
  "(copy_new_debs dist fs parent before = Ret (copied, fs')
      \<longrightarrow> (\<forall>p\<in>set copied. path_name p \<notin> before)
          \<and> map path_name copied = [n \<leftarrow> map path_name (glob_deb fs parent). n \<notin> before])
   \<and> (build_deb dist parent build fs = Ret (Some deb, fs'')
      \<longrightarrow> path_name deb \<notin> set (map path_name (glob_deb fs parent))
          \<and> path_name deb \<in> set (map path_name (glob_deb (snd (build fs)) parent)))"
proof (intro conjI impI)
  assume a: "copy_new_debs dist fs parent before = Ret (copied, fs')"
  from copy_new_debs_names [OF a]
  show n: "map path_name copied = [n \<leftarrow> map path_name (glob_deb fs parent). n \<notin> before]" .
  have "set (map path_name copied) \<inter> before = {}" unfolding n by auto
  then show "\<forall>p\<in>set copied. path_name p \<notin> before" by auto
next
  assume a: "build_deb dist parent build fs = Ret (Some deb, fs'')"
  obtain rc fs1 where b: "build fs = (rc, fs1)" by (cases "build fs")
  define before where "before = set (map path_name (glob_deb fs parent))"
  from a b have rc: "rc = Some 0"
    by (cases rc) (auto simp: build_deb_def Let_def split: if_splits)
  from a b rc obtain copied fs2 where c: "copy_new_debs dist fs1 parent before = Ret (copied, fs2)"
    unfolding before_def
    by (cases "copy_new_debs dist fs1 parent (set (map path_name (glob_deb fs parent)))")
       (auto simp: build_deb_def Let_def)
  from a b rc c obtain p ps where copied: "copied = p # ps" and deb: "deb = canonical p ps"
    unfolding before_def by (cases copied) (auto simp: build_deb_def Let_def)
  have "deb \<in> set copied" unfolding copied deb by (rule canonical_in)
  then have "path_name deb \<in> set (map path_name copied)" by simp
  then have "path_name deb \<in> set [n \<leftarrow> map path_name (glob_deb fs1 parent). n \<notin> before]"
    using copy_new_debs_names [OF c] by simp
  then have "path_name deb \<notin> before \<and> path_name deb \<in> set (map path_name (glob_deb fs1 parent))"
    by auto
  then have r: "path_name deb \<notin> set (map path_name (glob_deb fs parent))
      \<and> path_name deb \<in> set (map path_name (glob_deb (snd (build fs)) parent))"
    using b by (simp add: before_def)
  from r show "path_name deb \<notin> set (map path_name (glob_deb fs parent))" by (rule conjunct1)
  from r show "path_name deb \<in> set (map path_name (glob_deb (snd (build fs)) parent))"
    by (rule conjunct2)
qed

theorem new_debs_exclude_snapshot_witness:
  "copy_new_debs ''dist/deb''
       [((''/tmp/b'', ''kport_1.0_all.deb''), ''K''), ((''/tmp/b'', ''old_0.9_all.deb''), ''O''), ((''/tmp/b'', ''kport_1.0.tar.xz''), ''T'')]
       ''/tmp/b'' (set [''old_0.9_all.deb''])
     = Ret ([(''dist/deb'', ''kport_1.0_all.deb'')],
            [((''dist/deb'', ''kport_1.0_all.deb''), ''K''), ((''/tmp/b'', ''kport_1.0_all.deb''), ''K''), ((''/tmp/b'', ''old_0.9_all.deb''), ''O''), ((''/tmp/b'', ''kport_1.0.tar.xz''), ''T'')])
   \<and> path_name (''dist/deb'', ''kport_1.0_all.deb'') \<notin> set [''old_0.9_all.deb'']
   \<and> build_deb ''dist/deb'' ''/tmp/b''
         (\<lambda>fs. (Some 0, ((''/tmp/b'', ''kport-dbgsym_1.0_all.deb''), ''D'') # ((''/tmp/b'', ''kport_1.0_all.deb''), ''K'') # fs))
         [((''/tmp/b'', ''old_0.9_all.deb''), ''O'')]
     = Ret (Some (''dist/deb'', ''kport_1.0_all.deb''),
            [((''dist/deb'', ''kport_1.0_all.deb''), ''K''), ((''dist/deb'', ''kport-dbgsym_1.0_all.deb''), ''D''), ((''/tmp/b'', ''kport-dbgsym_1.0_all.deb''), ''D''), ((''/tmp/b'', ''kport_1.0_all.deb''), ''K''), ((''/tmp/b'', ''old_0.9_all.deb''), ''O'')])
   \<and> path_name (''dist/deb'', ''kport_1.0_all.deb'')
         \<notin> set (map path_name (glob_deb [((''/tmp/b'', ''old_0.9_all.deb''), ''O'')] ''/tmp/b''))"
proof -
  have 1: "copy_new_debs ''dist/deb''
       [((''/tmp/b'', ''kport_1.0_all.deb''), ''K''), ((''/tmp/b'', ''old_0.9_all.deb''), ''O''), ((''/tmp/b'', ''kport_1.0.tar.xz''), ''T'')]
       ''/tmp/b'' (set [''old_0.9_all.deb''])
     = Ret ([(''dist/deb'', ''kport_1.0_all.deb'')],
            [((''dist/deb'', ''kport_1.0_all.deb''), ''K''), ((''/tmp/b'', ''kport_1.0_all.deb''), ''K''), ((''/tmp/b'', ''old_0.9_all.deb''), ''O''), ((''/tmp/b'', ''kport_1.0.tar.xz''), ''T'')])"
    by code_simp
  have 2: "build_deb ''dist/deb'' ''/tmp/b''
         (\<lambda>fs. (Some 0, ((''/tmp/b'', ''kport-dbgsym_1.0_all.deb''), ''D'') # ((''/tmp/b'', ''kport_1.0_all.deb''), ''K'') # fs))
         [((''/tmp/b'', ''old_0.9_all.deb''), ''O'')]
     = Ret (Some (''dist/deb'', ''kport_1.0_all.deb''),
            [((''dist/deb'', ''kport_1.0_all.deb''), ''K''), ((''dist/deb'', ''kport-dbgsym_1.0_all.deb''), ''D''), ((''/tmp/b'', ''kport-dbgsym_1.0_all.deb''), ''D''), ((''/tmp/b'', ''kport_1.0_all.deb''), ''K''), ((''/tmp/b'', ''old_0.9_all.deb''), ''O'')])"
    by code_simp
  from 1 2
    new_debs_exclude_snapshot [of "''dist/deb''"
       "[((''/tmp/b'', ''kport_1.0_all.deb''), ''K''), ((''/tmp/b'', ''old_0.9_all.deb''), ''O''), ((''/tmp/b'', ''kport_1.0.tar.xz''), ''T'')]"
       "''/tmp/b''" "set [''old_0.9_all.deb'']" "[(''dist/deb'', ''kport_1.0_all.deb'')]"
       "[((''dist/deb'', ''kport_1.0_all.deb''), ''K''), ((''/tmp/b'', ''kport_1.0_all.deb''), ''K''), ((''/tmp/b'', ''old_0.9_all.deb''), ''O''), ((''/tmp/b'', ''kport_1.0.tar.xz''), ''T'')]"
       "(\<lambda>fs. (Some 0, ((''/tmp/b'', ''kport-dbgsym_1.0_all.deb''), ''D'') # ((''/tmp/b'', ''kport_1.0_all.deb''), ''K'') # fs))"
       "(''dist/deb'', ''kport_1.0_all.deb'')"
       "[((''dist/deb'', ''kport_1.0_all.deb''), ''K''), ((''dist/deb'', ''kport-dbgsym_1.0_all.deb''), ''D''), ((''/tmp/b'', ''kport-dbgsym_1.0_all.deb''), ''D''), ((''/tmp/b'', ''kport_1.0_all.deb''), ''K''), ((''/tmp/b'', ''old_0.9_all.deb''), ''O'')]"]
    new_debs_exclude_snapshot [of "''dist/deb''"
       "[((''/tmp/b'', ''old_0.9_all.deb''), ''O'')]"
       "''/tmp/b''" "set [''old_0.9_all.deb'']" "[(''dist/deb'', ''kport_1.0_all.deb'')]"
       "[((''dist/deb'', ''kport_1.0_all.deb''), ''K''), ((''/tmp/b'', ''kport_1.0_all.deb''), ''K''), ((''/tmp/b'', ''old_0.9_all.deb''), ''O''), ((''/tmp/b'', ''kport_1.0.tar.xz''), ''T'')]"
       "(\<lambda>fs. (Some 0, ((''/tmp/b'', ''kport-dbgsym_1.0_all.deb''), ''D'') # ((''/tmp/b'', ''kport_1.0_all.deb''), ''K'') # fs))"
       "(''dist/deb'', ''kport_1.0_all.deb'')"
       "[((''dist/deb'', ''kport_1.0_all.deb''), ''K''), ((''dist/deb'', ''kport-dbgsym_1.0_all.deb''), ''D''), ((''/tmp/b'', ''kport-dbgsym_1.0_all.deb''), ''D''), ((''/tmp/b'', ''kport_1.0_all.deb''), ''K''), ((''/tmp/b'', ''old_0.9_all.deb''), ''O'')]"]
  show ?thesis by simp
qed

section \<open>RepositoryStateValidator\<close>

lemmas prog_defs =
  then_do_def ret_def sys_exit_def emit_def print_header_def subprocess_run_def

lemma check_git_status_result:
  "check_git_status w s =
     (case run w (trace s) git_status_cmd of
        NotFound \<Rightarrow> (Raise FileNotFoundError, s\<lparr>trace := trace s @ [Exec git_status_cmd]\<rparr>)
      | Completed rc out err \<Rightarrow> (Ret (strip out = []), s\<lparr>trace := trace s @ [Exec git_status_cmd]\<rparr>))"
  by (simp add: check_git_status_def prog_defs split: proc.split)

lemma check_tag_exists_result:
  "check_tag_exists w tag s =
     (case run w (trace s) (git_tag_list_cmd tag) of
        NotFound \<Rightarrow> (Raise FileNotFoundError, s\<lparr>trace := trace s @ [Exec (git_tag_list_cmd tag)]\<rparr>)
      | Completed rc out err \<Rightarrow>
          (Ret (strip out \<noteq> []), s\<lparr>trace := trace s @ [Exec (git_tag_list_cmd tag)]\<rparr>))"
  by (simp add: check_tag_exists_def prog_defs split: proc.split)

text \<open>
  C2 does not hold as stated for a failing subprocess that did run. In a directory that is
  not a git repository, \<open>git status\<close> and \<open>git tag -l\<close> exit with code 128 and print
  nothing on stdout: the queries return the ordinary booleans "clean" and "tag absent".
\<close>

theorem repository_queries_ignore_exit_code_counterexample:
  "fst (check_git_status not_a_repository \<lparr>trace = [], stdin = []\<rparr>) = Ret True
   \<and> fst (check_tag_exists not_a_repository ''v1.2.3'' \<lparr>trace = [], stdin = []\<rparr>) = Ret False"
  by (simp add: check_git_status_result check_tag_exists_result not_a_repository_def strip_def)

text \<open>
  C2, as the code has it. When git cannot be started, the failure reaches the caller as an
  exception (\<open>FileNotFoundError\<close>), not as a boolean. When git runs, its exit code is not
  looked at: \<open>check_git_status\<close> returns whether stdout is blank, \<open>check_tag_exists\<close>
  whether it is not.
\<close>

theorem repository_queries_results:
  "(run w (trace s) git_status_cmd = NotFound
      \<longrightarrow> fst (check_git_status w s) = Raise FileNotFoundError)
   \<and> (run w (trace s) git_status_cmd = Completed rc out err
      \<longrightarrow> fst (check_git_status w s) = Ret (strip out = []))
   \<and> (run w (trace s) (git_tag_list_cmd tag) = NotFound
      \<longrightarrow> fst (check_tag_exists w tag s) = Raise FileNotFoundError)
   \<and> (run w (trace s) (git_tag_list_cmd tag) = Completed rc out err
      \<longrightarrow> fst (check_tag_exists w tag s) = Ret (strip out \<noteq> []))"
  by (simp add: check_git_status_result check_tag_exists_result)

theorem repository_queries_results_witness:
  "run no_git [] git_status_cmd = NotFound
   \<and> fst (check_git_status no_git \<lparr>trace = [], stdin = []\<rparr>) = Raise FileNotFoundError
   \<and> run no_git [] (git_tag_list_cmd ''v1.2.3'') = NotFound
   \<and> fst (check_tag_exists no_git ''v1.2.3'' \<lparr>trace = [], stdin = []\<rparr>) = Raise FileNotFoundError
   \<and> run not_a_repository [] git_status_cmd = Completed 128 [] ''fatal: not a git repository''
   \<and> fst (check_git_status not_a_repository \<lparr>trace = [], stdin = []\<rparr>) = Ret True
   \<and> run not_a_repository [] (git_tag_list_cmd ''v1.2.3'')
       = Completed 128 [] ''fatal: not a git repository''
   \<and> fst (check_tag_exists not_a_repository ''v1.2.3'' \<lparr>trace = [], stdin = []\<rparr>) = Ret False"
proof -
  have 1: "run no_git [] git_status_cmd = NotFound"
    and 2: "run no_git [] (git_tag_list_cmd ''v1.2.3'') = NotFound"
    by (simp_all add: no_git_def)
  have 3: "run not_a_repository [] git_status_cmd = Completed 128 [] ''fatal: not a git repository''"
    and 4: "run not_a_repository [] (git_tag_list_cmd ''v1.2.3'')
       = Completed 128 [] ''fatal: not a git repository''"
    by (simp_all add: not_a_repository_def)
  have 5: "strip [] = []" by (simp add: strip_def)
  show ?thesis
    using 1 2 3 4
      repository_queries_results [of no_git "\<lparr>trace = [], stdin = []\<rparr>" 0 "[]" "[]" "''v1.2.3''"]
      repository_queries_results [of not_a_repository "\<lparr>trace = [], stdin = []\<rparr>" 128 "[]"
         "''fatal: not a git repository''" "''v1.2.3''"]
    by (simp add: 5)
qed

section \<open>ReleaseOrchestrator: the idempotence guard and the dry run\<close>

lemma read_only_simps:
  "read_only (Header p)" "read_only ReadLine" "read_only (Exec git_status_cmd)"
  "read_only (Exec (git_tag_list_cmd tag))"
  by (simp_all add: read_only_def git_tag_list_cmd_def)

text \<open>
  C1. When the version is resolved and the tag \<open>v<version>\<close> already exists, the release
  ends with exit code 1 in the pre-flight checks: the trace holds the two headers and at
  most the two read-only git queries, so no tag is created, nothing is pushed, built or
  published, and nothing is read from standard input. A second run after a successful
  release of the same version finds the tag and stops the same way.
\<close>

theorem existing_tag_aborts_release:
  assumes v: "read_version_from_setup (setup_text w) = Some current" and ne: "current \<noteq> []"
    and tag: "tag = ''v'' @ resolve_version a current"
    and listed: "tag_listed w tag"
  shows "fst (script w a input_lines) = Exit 1
     \<and> set (trace (snd (script w a input_lines)))
          \<subseteq> {Header Start, Header PreflightChecks, Exec git_status_cmd, Exec (git_tag_list_cmd tag)}
     \<and> Header PreflightChecks \<in> set (trace (snd (script w a input_lines)))
     \<and> (\<forall>e\<in>set (trace (snd (script w a input_lines))). read_only e)
     \<and> stdin (snd (script w a input_lines)) = input_lines"
proof -
  from listed obtain rc out err where
    t: "run w [Header Start, Header PreflightChecks, Exec git_status_cmd] (git_tag_list_cmd tag)
          = Completed rc out err"
    and o: "strip out \<noteq> []"
    unfolding tag_listed_def by blast
  have shape: "script w a input_lines
        = (Exit 1, \<lparr>trace = [Header Start, Header PreflightChecks, Exec git_status_cmd],
                     stdin = input_lines\<rparr>)
      \<or> script w a input_lines
        = (Exit 1, \<lparr>trace = [Header Start, Header PreflightChecks, Exec git_status_cmd,
                              Exec (git_tag_list_cmd tag)],
                     stdin = input_lines\<rparr>)"
  proof (cases "run w [Header Start, Header PreflightChecks] git_status_cmd")
    case NotFound
    then show ?thesis
      using v ne
      by (simp add: script_def main_def preflight_def prog_defs check_git_status_result Let_def)
  next
    case (Completed rc' out' err')
    show ?thesis
    proof (cases "strip out' = []")
      case True
      then show ?thesis
        using v ne Completed t o tag
        by (simp add: script_def main_def preflight_def prog_defs check_git_status_result
            check_tag_exists_result Let_def)
    next
      case False
      then show ?thesis
        using v ne Completed
        by (simp add: script_def main_def preflight_def prog_defs check_git_status_result Let_def)
    qed
  qed
  from shape show ?thesis
  proof
    assume "script w a input_lines
        = (Exit 1, \<lparr>trace = [Header Start, Header PreflightChecks, Exec git_status_cmd],
                     stdin = input_lines\<rparr>)"
    then show ?thesis by (simp add: read_only_simps)
  next
    assume "script w a input_lines
        = (Exit 1, \<lparr>trace = [Header Start, Header PreflightChecks, Exec git_status_cmd,
                              Exec (git_tag_list_cmd tag)],
                     stdin = input_lines\<rparr>)"
    then show ?thesis by (simp add: read_only_simps)
  qed
qed

theorem existing_tag_aborts_release_witness:
  "read_version_from_setup (setup_text tagged_repository) = Some ''1.2.3''
   \<and> tag_listed tagged_repository ''v1.2.3''
   \<and> fst (script tagged_repository release_args [''y'']) = Exit 1
   \<and> set (trace (snd (script tagged_repository release_args [''y''])))
        \<subseteq> {Header Start, Header PreflightChecks, Exec git_status_cmd,
            Exec (git_tag_list_cmd ''v1.2.3'')}
   \<and> stdin (snd (script tagged_repository release_args [''y''])) = [''y'']"
proof -
  have v: "read_version_from_setup (setup_text tagged_repository) = Some ''1.2.3''"
    by code_simp
  have ne: "''1.2.3'' \<noteq> []" by simp
  have tag: "''v1.2.3'' = ''v'' @ resolve_version release_args ''1.2.3''"
    by (simp add: resolve_version_def release_args_def)
  have s: "strip (''v1.2.3'' @ [nl]) \<noteq> []" by code_simp
  have listed: "tag_listed tagged_repository ''v1.2.3''"
    unfolding tag_listed_def using s by (simp add: tagged_repository_def)
  from existing_tag_aborts_release [OF v ne tag listed, of "[''y'']"] v listed
  show ?thesis by blast
qed

text \<open>
  C3. In dry-run mode, when the version is resolved, the repository is clean and the tag
  is absent, the run ends normally with the summary, and its whole trace is the two
  read-only git queries between the headers: no tag, no push, no build, no upload, no
  remote release, and no prompt.
\<close>

theorem dry_run_changes_nothing:
  assumes dry: "dry_run a"
    and v: "read_version_from_setup (setup_text w) = Some current" and ne: "current \<noteq> []"
    and tag: "tag = ''v'' @ resolve_version a current"
    and clean: "repo_clean w" and absent: "tag_absent w tag"
  shows "script w a input_lines
       = (Ret \<lparr>pypi_success = True, deb_success = True\<rparr>,
          \<lparr>trace = [Header Start, Header PreflightChecks, Exec git_status_cmd,
                    Exec (git_tag_list_cmd tag), Header CreatingGitTag, Header ReleaseComplete],
           stdin = input_lines\<rparr>)
     \<and> (\<forall>e\<in>set (trace (snd (script w a input_lines))). read_only e)"
proof -
  from clean obtain rc out err where
    g: "run w [Header Start, Header PreflightChecks] git_status_cmd = Completed rc out err"
    and go: "strip out = []"
    unfolding repo_clean_def by blast
  from absent obtain rc' out' err' where
    t: "run w [Header Start, Header PreflightChecks, Exec git_status_cmd] (git_tag_list_cmd tag)
          = Completed rc' out' err'"
    and to: "strip out' = []"
    unfolding tag_absent_def by blast
  have pre: "preflight w a \<lparr>trace = [], stdin = input_lines\<rparr>
      = (Ret (resolve_version a current, tag),
         \<lparr>trace = [Header Start, Header PreflightChecks, Exec git_status_cmd,
                   Exec (git_tag_list_cmd tag)], stdin = input_lines\<rparr>)"
    using v ne g go t to tag
    by (simp add: preflight_def prog_defs check_git_status_result check_tag_exists_result Let_def)
  have conf: "\<And>s. confirm_and_tag w a (resolve_version a current) tag s
      = (Ret (), s\<lparr>trace := trace s @ [Header CreatingGitTag]\<rparr>)"
    using dry by (simp add: confirm_and_tag_def prog_defs)
  have build: "\<And>s. build_and_publish w a (resolve_version a current) tag s
      = (Ret \<lparr>pypi_success = True, deb_success = True\<rparr>,
         s\<lparr>trace := trace s @ [Header ReleaseComplete]\<rparr>)"
    using dry
    by (simp add: build_and_publish_def build_pypi_packages_def build_debian_package_def
        create_github_release_def command_exists_def prog_defs)
  have run: "script w a input_lines
       = (Ret \<lparr>pypi_success = True, deb_success = True\<rparr>,
          \<lparr>trace = [Header Start, Header PreflightChecks, Exec git_status_cmd,
                    Exec (git_tag_list_cmd tag), Header CreatingGitTag, Header ReleaseComplete],
           stdin = input_lines\<rparr>)"
    by (simp add: script_def main_def then_do_def pre conf build)
  show ?thesis unfolding run by (simp add: read_only_simps)
qed

theorem dry_run_changes_nothing_witness:
  "dry_run dry_run_args
   \<and> read_version_from_setup (setup_text ready_repository) = Some ''1.2.3''
   \<and> repo_clean ready_repository \<and> tag_absent ready_repository ''v1.2.3''
   \<and> script ready_repository dry_run_args [''y'']
       = (Ret \<lparr>pypi_success = True, deb_success = True\<rparr>,
          \<lparr>trace = [Header Start, Header PreflightChecks, Exec git_status_cmd,
                    Exec (git_tag_list_cmd ''v1.2.3''), Header CreatingGitTag,
                    Header ReleaseComplete],
           stdin = [''y'']\<rparr>)"
proof -
  have dry: "dry_run dry_run_args" by (simp add: dry_run_args_def)
  have v: "read_version_from_setup (setup_text ready_repository) = Some ''1.2.3''"
    by code_simp
  have ne: "''1.2.3'' \<noteq> []" by simp
  have tag: "''v1.2.3'' = ''v'' @ resolve_version dry_run_args ''1.2.3''"
    by (simp add: resolve_version_def dry_run_args_def)
  have s: "strip [] = []" by (simp add: strip_def)
  have clean: "repo_clean ready_repository"
    unfolding repo_clean_def using s by (simp add: ready_repository_def)
  have absent: "tag_absent ready_repository ''v1.2.3''"
    unfolding tag_absent_def using s by (simp add: ready_repository_def)
  from dry_run_changes_nothing [OF dry v ne tag clean absent, of "[''y'']"] dry v clean absent
  show ?thesis by blast
qed

section \<open>ReleaseOrchestrator: partial failure\<close>

lemma build_pypi_never_exits: "fst (build_pypi_packages w d s) \<noteq> Exit c"
  by (simp add: build_pypi_packages_def command_exists_def exists_def glob_list_def prog_defs
      split: proc.split)

lemma build_debian_never_exits: "fst (build_debian_package w d s) \<noteq> Exit c"
  by (simp add: build_debian_package_def exists_def glob_list_def prog_defs split: proc.split)

text \<open>
  C9. In a release that asks for both package kinds and has passed the checks, the
  confirmation and the tagging, whatever the PyPI build returns (success or failure) the
  Debian build is run next, whatever that one returns the release notes and the GitHub
  release step follow, and the run ends with the summary, which records both results.
  Neither build step can leave the process through \<open>sys.exit\<close>: a failed build is a
  returned \<open>False\<close>.
\<close>

theorem build_failure_does_not_stop_release:
  assumes both: "\<not> no_pypi a" "\<not> no_deb a"
    and pre: "preflight w a s0 = (Ret (version, tag), s1)"
    and conf: "confirm_and_tag w a version tag s1 = (Ret (), s2)"
    and pypi: "build_pypi_packages w (dry_run a) s2 = (Ret pypi_ok, s3)"
    and deb: "build_debian_package w (dry_run a) s3 = (Ret deb_ok, s4)"
    and rn: "(if \<not> no_github a \<and> \<not> dry_run a then get_release_notes version
                 else ret (''Release '' @ version)) s4 = (Ret notes, s5)"
    and gh: "(no_github a \<and> s6 = s5)
             \<or> (\<not> no_github a
                 \<and> create_github_release w version tag notes (dry_run a) s5 = (Ret published, s6))"
  shows "main w a s0
       = (Ret \<lparr>pypi_success = pypi_ok, deb_success = deb_ok\<rparr>,
          s6\<lparr>trace := trace s6 @ [Header ReleaseComplete]\<rparr>)
     \<and> fst (build_pypi_packages w (dry_run a) s2) \<noteq> Exit c
     \<and> fst (build_debian_package w (dry_run a) s3) \<noteq> Exit c"
proof -
  have publish: "(if \<not> no_github a
          then then_do (create_github_release w version tag notes (dry_run a)) (\<lambda>_. ret ())
          else ret ()) s5 = (Ret (), s6)"
    using gh by (auto simp: then_do_def ret_def)
  have tail: "build_and_publish w a version tag s2
       = (Ret \<lparr>pypi_success = pypi_ok, deb_success = deb_ok\<rparr>,
          s6\<lparr>trace := trace s6 @ [Header ReleaseComplete]\<rparr>)"
    unfolding build_and_publish_def
    using both pypi deb rn publish
    by (simp add: then_do_def print_header_def emit_def ret_def)
  have "main w a s0
       = (Ret \<lparr>pypi_success = pypi_ok, deb_success = deb_ok\<rparr>,
          s6\<lparr>trace := trace s6 @ [Header ReleaseComplete]\<rparr>)"
    unfolding main_def using pre conf tail by (simp add: then_do_def)
  then show ?thesis
    using build_pypi_never_exits build_debian_never_exits by simp
qed

theorem build_failure_does_not_stop_release_witness:
  "\<not> no_pypi release_args \<and> \<not> no_deb release_args
   \<and> fst (build_pypi_packages pypi_build_fails (dry_run release_args)
            (snd (confirm_and_tag pypi_build_fails release_args ''1.2.3'' ''v1.2.3''
               (snd (preflight pypi_build_fails release_args \<lparr>trace = [], stdin = [''y'', []]\<rparr>)))))
       = Ret False
   \<and> fst (main pypi_build_fails release_args \<lparr>trace = [], stdin = [''y'', []]\<rparr>)
       = Ret \<lparr>pypi_success = False, deb_success = True\<rparr>
   \<and> Exec [''python3'', ''/repo/deb_publish.py'']
       \<in> set (trace (snd (main pypi_build_fails release_args \<lparr>trace = [], stdin = [''y'', []]\<rparr>)))
   \<and> Header CreatingRelease
       \<in> set (trace (snd (main pypi_build_fails release_args \<lparr>trace = [], stdin = [''y'', []]\<rparr>)))
   \<and> Header ReleaseComplete
       \<in> set (trace (snd (main pypi_build_fails release_args \<lparr>trace = [], stdin = [''y'', []]\<rparr>)))"
proof -
  let ?w = pypi_build_fails
  let ?a = release_args
  let ?s0 = "\<lparr>trace = [], stdin = [''y'', []]\<rparr>"
  let ?s1 = "snd (preflight ?w ?a ?s0)"
  let ?s2 = "snd (confirm_and_tag ?w ?a ''1.2.3'' ''v1.2.3'' ?s1)"
  let ?s3 = "snd (build_pypi_packages ?w (dry_run ?a) ?s2)"
  let ?s4 = "snd (build_debian_package ?w (dry_run ?a) ?s3)"
  let ?notes = "default_notes ''1.2.3''"
  let ?rn = "(if \<not> no_github ?a \<and> \<not> dry_run ?a then get_release_notes ''1.2.3''
              else ret (''Release '' @ ''1.2.3''))"
  let ?s5 = "snd (?rn ?s4)"
  let ?s6 = "snd (create_github_release ?w ''1.2.3'' ''v1.2.3'' ?notes (dry_run ?a) ?s5)"
  have both: "\<not> no_pypi ?a" "\<not> no_deb ?a" by (simp_all add: release_args_def)
  have "fst (preflight ?w ?a ?s0) = Ret (''1.2.3'', ''v1.2.3'')" by code_simp
  then have pre: "preflight ?w ?a ?s0 = (Ret (''1.2.3'', ''v1.2.3''), ?s1)"
    by (cases "preflight ?w ?a ?s0") simp
  have "fst (confirm_and_tag ?w ?a ''1.2.3'' ''v1.2.3'' ?s1) = Ret ()" by code_simp
  then have conf: "confirm_and_tag ?w ?a ''1.2.3'' ''v1.2.3'' ?s1 = (Ret (), ?s2)"
    by (cases "confirm_and_tag ?w ?a ''1.2.3'' ''v1.2.3'' ?s1") simp
  have p: "fst (build_pypi_packages ?w (dry_run ?a) ?s2) = Ret False" by code_simp
  then have pypi: "build_pypi_packages ?w (dry_run ?a) ?s2 = (Ret False, ?s3)"
    by (cases "build_pypi_packages ?w (dry_run ?a) ?s2") simp
  have "fst (build_debian_package ?w (dry_run ?a) ?s3) = Ret True" by code_simp
  then have deb: "build_debian_package ?w (dry_run ?a) ?s3 = (Ret True, ?s4)"
    by (cases "build_debian_package ?w (dry_run ?a) ?s3") simp
  have "fst (?rn ?s4) = Ret ?notes" by code_simp
  then have rn: "?rn ?s4 = (Ret ?notes, ?s5)"
    by (cases "?rn ?s4") simp
  have ng: "\<not> no_github ?a" by (simp add: release_args_def)
  have "fst (create_github_release ?w ''1.2.3'' ''v1.2.3'' ?notes (dry_run ?a) ?s5) = Ret True"
    by code_simp
  then have "create_github_release ?w ''1.2.3'' ''v1.2.3'' ?notes (dry_run ?a) ?s5 = (Ret True, ?s6)"
    by (cases "create_github_release ?w ''1.2.3'' ''v1.2.3'' ?notes (dry_run ?a) ?s5") simp
  then have gh: "(no_github ?a \<and> ?s6 = ?s5)
       \<or> (\<not> no_github ?a
           \<and> create_github_release ?w ''1.2.3'' ''v1.2.3'' ?notes (dry_run ?a) ?s5 = (Ret True, ?s6))"
    using ng by simp
  from build_failure_does_not_stop_release [OF both pre conf pypi deb rn gh]
  have "fst (main ?w ?a ?s0) = Ret \<lparr>pypi_success = False, deb_success = True\<rparr>"
    by simp
  moreover have "Exec [''python3'', ''/repo/deb_publish.py''] \<in> set (trace (snd (main ?w ?a ?s0)))"
    by code_simp
  moreover have "Header CreatingRelease \<in> set (trace (snd (main ?w ?a ?s0)))"
    by code_simp
  moreover have "Header ReleaseComplete \<in> set (trace (snd (main ?w ?a ?s0)))"
    by code_simp
  ultimately show ?thesis using both p by simp
qed

end
